theory Spec2Isabelle
  imports Complex_Main
begin

section \<open>The customer-churn notebook as a logged, fallible program\<close>

text \<open>
  The repository is one notebook, \<^verbatim>\<open>notebooks/customer_churn/xgboost_customer_churn.ipynb\<close>,
  whose code cells are run top to bottom. The first cell only imports; the cells after it
  are numbered from 2 here. Every cell is straight-line glue around calls
  into boto3, pandas and the SageMaker SDK; the only loop is the one over the rows of
  \<^verbatim>\<open>data/test_sample.csv\<close> and the only handler is the \<^verbatim>\<open>try\<close> around bucket creation.

  The model runs the cells against a \<open>world\<close> that decides what every call out of the
  notebook returns and whether it raises. A run returns the log of what the notebook
  did, in order, together with its result: \<open>Inr\<close> when the last cell has finished,
  \<open>Inl e\<close> when the exception \<open>e\<close> left a cell uncaught (a notebook run stops there).
\<close>

subsection \<open>Python values\<close>

text \<open>
  What a call raises. \<open>Exception n\<close> is an instance of class \<^verbatim>\<open>Exception\<close> or of a
  subclass of it named \<open>n\<close>; \<open>BaseException n\<close> is an instance of a class that derives
  from \<^verbatim>\<open>BaseException\<close> only (\<^verbatim>\<open>KeyboardInterrupt\<close>, \<^verbatim>\<open>SystemExit\<close>), which
  \<^verbatim>\<open>except Exception\<close> does not catch.
\<close>

datatype raised = Exception string | BaseException string

fun is_Exception :: "raised \<Rightarrow> bool" where
  "is_Exception (Exception n) = True"
| "is_Exception (BaseException n) = False"

text \<open>A scalar of the hyperparameter dictionary; a float is kept as its literal.\<close>

datatype pyval = PyInt int | PyFloat string | PyStr string

text \<open>\<^verbatim>\<open>sagemaker.s3_input(s3_data=..., content_type=...)\<close>.\<close>

datatype s3_input = S3_input (s3_data: string) (content_type: string)

text \<open>
  The two estimator classes of the notebook, \<^verbatim>\<open>sagemaker.estimator.Estimator\<close>
  (algorithm mode) and \<^verbatim>\<open>sagemaker.xgboost.XGBoost\<close> (framework mode), and the keyword
  arguments they are built from. The generic estimator has no entry point, framework
  version or Python version. The session handle both are given is the one the notebook
  has at that point and is not recorded.
\<close>

datatype estimator_class = Estimator | XGBoost

record estimator =
  cls :: estimator_class
  image_name :: string
  entry_point :: "string option"
  role :: string
  framework_version :: "string option"
  py_version :: "string option"
  hyperparameters :: "(string \<times> pyval) list"
  train_instance_count :: nat
  train_instance_type :: string
  output_path :: string
  base_job_name :: string

text \<open>
  The predictor object \<^verbatim>\<open>deploy\<close> returns, with the three attributes the notebook
  assigns afterwards.
\<close>

record predictor =
  endpoint :: string
  predictor_content_type :: "string option"
  serializer :: "string option"
  deserializer :: "string option"

text \<open>The fields of \<^verbatim>\<open>time.struct_time\<close> that the format string reads.\<close>

record struct_time =
  tm_year :: nat
  tm_mon :: nat
  tm_mday :: nat
  tm_hour :: nat
  tm_min :: nat
  tm_sec :: nat

subsection \<open>The log\<close>

text \<open>
  A \<open>call\<close> is one call out of the notebook into a library or a service, with the
  arguments the notebook passes; any of them may raise. A client that is built only to
  make one request (\<^verbatim>\<open>sess.client('s3').create_bucket(...)\<close>,
  \<^verbatim>\<open>sess.client('sts', ...).get_caller_identity()\<close>) is one call with that request.
  \<open>Next_line\<close> is one step of the iteration over an open file: the \<^verbatim>\<open>for\<close> statement
  asks the file for its next line before every pass through its body and once more to
  find the end, and each time the file may have to read and decode, which can fail.
\<close>

datatype call =
    Boto3_Session
  | Client string
  | Get_execution_role
  | Read_csv string
  | Set_option string nat
  | Get_caller_identity string
  | Create_bucket string "string option"
  | S3_upload string string
  | Get_image_uri string string
  | New_s3_input string string
  | Sagemaker_Session
  | New_estimator estimator
  | Fit estimator "(string \<times> s3_input) list"
  | Deploy estimator nat string string
  | Open_file string string
  | Next_line string
  | Predict predictor string
  | Delete_endpoint string

text \<open>
  An \<open>event\<close> is a call, or one of the steps that do not go through the world: text
  printed to the cell output, the display of a cell's last expression, an IPython
  \<^verbatim>\<open>!\<close> shell line (which never raises into the notebook), a \<^verbatim>\<open>time.sleep\<close> of so many
  seconds, and the evaluation of a dictionary literal.
\<close>

datatype event =
    Called call
  | Print string
  | Display string
  | Shell string
  | Sleep rat
  | Dict_literal "(string \<times> pyval) list"

subsection \<open>The world\<close>

text \<open>
  \<open>raises w lg c\<close> says whether call \<open>c\<close>, made after the log \<open>lg\<close>, raises, and what.
  The other fields are what the calls return: the session's region, the account of the
  caller identity, the execution role, the image URI for a region and algorithm, the
  URI \<^verbatim>\<open>S3Uploader.upload\<close> returns for a local path and destination, the clock reading
  of the notebook's one \<^verbatim>\<open>gmtime()\<close>, the \<^verbatim>\<open>endpoint\<close> attribute of the predictor that
  \<^verbatim>\<open>deploy\<close> returns for a requested endpoint name, the characters of
  \<^verbatim>\<open>data/test_sample.csv\<close> that the reads deliver when none of them raises, and the
  endpoint's response to a payload sent after a log.
\<close>

record world =
  raises :: "event list \<Rightarrow> call \<Rightarrow> raised option"
  region_name :: string
  account :: string
  execution_role :: string
  image_uri :: "string \<Rightarrow> string \<Rightarrow> string"
  uploaded_uri :: "string \<Rightarrow> string \<Rightarrow> string"
  gmtime :: struct_time
  attached_endpoint :: "string \<Rightarrow> string"
  test_sample :: string
  respond :: "event list \<Rightarrow> string \<Rightarrow> string"

subsection \<open>Programs\<close>

type_synonym 'a prog = "event list \<Rightarrow> (raised + 'a) \<times> event list"

definition ret :: "'a \<Rightarrow> 'a prog" where
  "ret x = (\<lambda>lg. (Inr x, lg))"

text \<open>Sequencing: the second statement runs only when the first has not raised.\<close>

definition bind_prog :: "'a prog \<Rightarrow> ('a \<Rightarrow> 'b prog) \<Rightarrow> 'b prog" where
  "bind_prog m f = (\<lambda>lg. case m lg of (Inl e, lg') \<Rightarrow> (Inl e, lg') | (Inr x, lg') \<Rightarrow> f x lg')"

text \<open>
  A call is logged when it is made; it raises what the world says, or returns the value
  \<open>v\<close> gives for the log before it.
\<close>

definition call :: "world \<Rightarrow> call \<Rightarrow> (event list \<Rightarrow> 'a) \<Rightarrow> 'a prog" where
  "call w c v = (\<lambda>lg. case raises w lg c of
       Some e \<Rightarrow> (Inl e, lg @ [Called c])
     | None \<Rightarrow> (Inr (v lg), lg @ [Called c]))"

definition emit :: "event \<Rightarrow> unit prog" where
  "emit ev = (\<lambda>lg. (Inr (), lg @ [ev]))"

text \<open>\<^verbatim>\<open>try: body  except <class> as e: handler\<close>.\<close>

definition try_except :: "unit prog \<Rightarrow> (raised \<Rightarrow> bool) \<Rightarrow> unit prog \<Rightarrow> unit prog" where
  "try_except body catches handler = (\<lambda>lg. case body lg of
       (Inl e, lg') \<Rightarrow> if catches e then handler lg' else (Inl e, lg')
     | (Inr x, lg') \<Rightarrow> (Inr x, lg'))"

text \<open>A call whose value is not used, followed by the rest of the program.\<close>

definition then_call :: "world \<Rightarrow> call \<Rightarrow> unit prog \<Rightarrow> unit prog" where
  "then_call w c m = bind_prog (call w c (\<lambda>_. ())) (\<lambda>_. m)"

subsection \<open>Library functions of Python the notebook relies on\<close>

definition LF :: char where
  "LF = CHR 0x0A"

definition CR :: char where
  "CR = CHR 0x0D"

text \<open>\<^verbatim>\<open>s.rstrip('\n')\<close>: every trailing line feed is dropped, and nothing else.\<close>

definition rstrip_newline :: "string \<Rightarrow> string" where
  "rstrip_newline s = rev (dropWhile (\<lambda>c. c = LF) (rev s))"

text \<open>
  \<^verbatim>\<open>open(path, 'r')\<close> opens the file in text mode with the default \<^verbatim>\<open>newline=None\<close>,
  Python's universal-newlines mode: on reading, the line endings \<^verbatim>\<open>'\r\n'\<close> and
  \<^verbatim>\<open>'\r'\<close> are handed to the program as \<^verbatim>\<open>'\n'\<close>.
\<close>

fun universal_newlines :: "string \<Rightarrow> string" where
  "universal_newlines [] = []"
| "universal_newlines [c] = (if c = CR then [LF] else [c])"
| "universal_newlines (c # d # cs) =
     (if c = CR \<and> d = LF then LF # universal_newlines cs
      else if c = CR then LF # universal_newlines (d # cs)
      else c # universal_newlines (d # cs))"

text \<open>
  Iterating over a text stream yields its lines, each with its line feed, the last one
  without when the text does not end in one; an empty text has no line.
\<close>

fun split_lines :: "string \<Rightarrow> string list" where
  "split_lines [] = []"
| "split_lines (c # cs) =
     (if c = LF then [c] # split_lines cs
      else (case split_lines cs of [] \<Rightarrow> [[c]] | l # ls \<Rightarrow> (c # l) # ls))"

definition file_rows :: "string \<Rightarrow> string list" where
  "file_rows s = split_lines (universal_newlines s)"

text \<open>Decimal digits of a number, and a field zero-padded to two digits.\<close>

fun decimal :: "nat \<Rightarrow> string" where
  "decimal n = (if n < 10 then [''0123456789'' ! n]
                else decimal (n div 10) @ [''0123456789'' ! (n mod 10)])"

declare decimal.simps [simp del]

definition two_digits :: "nat \<Rightarrow> string" where
  "two_digits n = (if n < 10 then CHR ''0'' # decimal n else decimal n)"

text \<open>
  \<^verbatim>\<open>time.strftime(format, t)\<close> for the directives the notebook uses: \<^verbatim>\<open>%Y\<close> is the
  year in decimal, \<^verbatim>\<open>%m %d %H %M %S\<close> are two-digit fields; every other character is
  copied.
\<close>

definition directive :: "char \<Rightarrow> struct_time \<Rightarrow> string" where
  "directive d t =
     (if d = CHR ''Y'' then decimal (tm_year t)
      else if d = CHR ''m'' then two_digits (tm_mon t)
      else if d = CHR ''d'' then two_digits (tm_mday t)
      else if d = CHR ''H'' then two_digits (tm_hour t)
      else if d = CHR ''M'' then two_digits (tm_min t)
      else if d = CHR ''S'' then two_digits (tm_sec t)
      else [CHR ''%'', d])"

fun strftime :: "string \<Rightarrow> struct_time \<Rightarrow> string" where
  "strftime [] t = []"
| "strftime [c] t = [c]"
| "strftime (c # d # cs) t =
     (if c = CHR ''%'' then directive d t @ strftime cs t
      else c # strftime (d # cs) t)"

declare strftime.simps [simp del]

subsection \<open>The cells of the notebook\<close>

text \<open>Cell 2: the boto3 session, a SageMaker client and the execution role.\<close>

definition cell_session :: "world \<Rightarrow> string prog" where
  "cell_session w =
     bind_prog (call w Boto3_Session (\<lambda>_. ())) (\<lambda>sess.
     bind_prog (call w (Client ''sagemaker'') (\<lambda>_. ())) (\<lambda>sm.
     call w Get_execution_role (\<lambda>_. execution_role w)))"

text \<open>Cell 3: the training data with its header is read and shown.\<close>

definition local_data_path :: string where
  "local_data_path = ''./data/training-dataset-with-header.csv''"

definition cell_data :: "world \<Rightarrow> unit prog" where
  "cell_data w =
     bind_prog (call w (Read_csv local_data_path) (\<lambda>_. ())) (\<lambda>data.
     bind_prog (call w (Set_option ''display.max_columns'' 500) (\<lambda>_. ())) (\<lambda>_.
     bind_prog (call w (Set_option ''display.max_rows'' 10) (\<lambda>_. ())) (\<lambda>_.
     emit (Display ''data''))))"

text \<open>
  Cell 4: the bucket name, the guarded bucket creation and the two uploads. The cell
  returns the bucket name, which later cells read.
\<close>

definition prefix :: string where
  "prefix = ''xgboost-churn''"

definition bucket_exists_message :: string where
  "bucket_exists_message =
     ''Looks like you already have a bucket of this name. That's good. Uploading the data files...''"

definition create_bucket :: "world \<Rightarrow> string \<Rightarrow> unit prog" where
  "create_bucket w bucket =
     try_except
       (if region_name w = ''us-east-1''
        then call w (Create_bucket bucket None) (\<lambda>_. ())
        else call w (Create_bucket bucket (Some (region_name w))) (\<lambda>_. ()))
       is_Exception
       (emit (Print bucket_exists_message))"

definition s3_path :: "string \<Rightarrow> string \<Rightarrow> string \<Rightarrow> string" where
  "s3_path bucket pre name = ''s3://'' @ bucket @ ''/'' @ pre @ ''/'' @ name"

definition cell_upload :: "world \<Rightarrow> string prog" where
  "cell_upload w =
     bind_prog (call w (Get_caller_identity (region_name w)) (\<lambda>_. account w)) (\<lambda>account_id.
     bind_prog (ret (''sagemaker-'' @ region_name w @ ''-'' @ account_id)) (\<lambda>bucket.
     bind_prog (create_bucket w bucket) (\<lambda>_.
     bind_prog (call w (S3_upload ''data/train.csv'' (s3_path bucket prefix ''train''))
                  (\<lambda>_. uploaded_uri w ''data/train.csv'' (s3_path bucket prefix ''train''))) (\<lambda>s3url.
     bind_prog (emit (Print s3url)) (\<lambda>_.
     bind_prog (call w (S3_upload ''data/validation.csv'' (s3_path bucket prefix ''validation''))
                  (\<lambda>_. uploaded_uri w ''data/validation.csv'' (s3_path bucket prefix ''validation''))) (\<lambda>s3url.
     bind_prog (emit (Print s3url)) (\<lambda>_.
     ret bucket)))))))"

text \<open>Cell 5: the container image of the XGBoost algorithm, from a fresh boto3 session.\<close>

definition cell_image :: "world \<Rightarrow> string prog" where
  "cell_image w =
     bind_prog (call w Boto3_Session (\<lambda>_. ())) (\<lambda>_.
     call w (Get_image_uri (region_name w) ''xgboost'') (\<lambda>_. image_uri w (region_name w) ''xgboost''))"

text \<open>Cell 6: the two input channels. The validation location ends in a slash.\<close>

definition cell_inputs :: "world \<Rightarrow> string \<Rightarrow> (s3_input \<times> s3_input) prog" where
  "cell_inputs w bucket =
     bind_prog (call w (New_s3_input (''s3://'' @ bucket @ ''/'' @ prefix @ ''/train'') ''csv'')
                  (\<lambda>_. S3_input (''s3://'' @ bucket @ ''/'' @ prefix @ ''/train'') ''csv'')) (\<lambda>s3_input_train.
     bind_prog (call w (New_s3_input (''s3://'' @ bucket @ ''/'' @ prefix @ ''/validation/'') ''csv'')
                  (\<lambda>_. S3_input (''s3://'' @ bucket @ ''/'' @ prefix @ ''/validation/'') ''csv'')) (\<lambda>s3_input_validation.
     ret (s3_input_train, s3_input_validation)))"

text \<open>Cell 7: the hyperparameters.\<close>

definition hyperparams :: "(string \<times> pyval) list" where
  "hyperparams =
     [(''max_depth'', PyInt 5),
      (''subsample'', PyFloat ''0.8''),
      (''num_round'', PyInt 600),
      (''eta'', PyFloat ''0.2''),
      (''gamma'', PyInt 4),
      (''min_child_weight'', PyInt 6),
      (''silent'', PyInt 0),
      (''objective'', PyStr ''binary:logistic'')]"

definition cell_hyperparams :: "(string \<times> pyval) list prog" where
  "cell_hyperparams = bind_prog (emit (Dict_literal hyperparams)) (\<lambda>_. ret hyperparams)"

text \<open>Cell 8, trial 1: a SageMaker session, the generic estimator, and its training job.\<close>

definition xgb_estimator :: "string \<Rightarrow> string \<Rightarrow> (string \<times> pyval) list \<Rightarrow> string \<Rightarrow> estimator" where
  "xgb_estimator docker_image_name rl hp bucket =
     \<lparr>cls = Estimator,
      image_name = docker_image_name,
      entry_point = None,
      role = rl,
      framework_version = None,
      py_version = None,
      hyperparameters = hp,
      train_instance_count = 1,
      train_instance_type = ''ml.m5.large'',
      output_path = ''s3://'' @ bucket @ ''/'' @ prefix @ ''/output'',
      base_job_name = ''demo-xgboost-customer-churn''\<rparr>"

definition cell_algorithm_mode ::
  "world \<Rightarrow> string \<Rightarrow> string \<Rightarrow> (string \<times> pyval) list \<Rightarrow> string \<Rightarrow> s3_input \<times> s3_input \<Rightarrow> estimator prog" where
  "cell_algorithm_mode w docker_image_name rl hp bucket inputs =
     bind_prog (call w Sagemaker_Session (\<lambda>_. ())) (\<lambda>sess.
     bind_prog (call w (New_estimator (xgb_estimator docker_image_name rl hp bucket))
                  (\<lambda>_. xgb_estimator docker_image_name rl hp bucket)) (\<lambda>xgb.
     bind_prog (call w (Fit xgb [(''train'', fst inputs), (''validation'', snd inputs)]) (\<lambda>_. ())) (\<lambda>_.
     ret xgb)))"

text \<open>Cell 9: the entry-point script is listed by a shell line.\<close>

definition cell_pygmentize :: "unit prog" where
  "cell_pygmentize = emit (Shell ''pygmentize xgboost_customer_churn.py'')"

text \<open>Cell 10, trial 2: the framework estimator and its training job.\<close>

definition entry_point_script :: string where
  "entry_point_script = ''xgboost_customer_churn.py''"

definition framework_estimator :: "string \<Rightarrow> string \<Rightarrow> (string \<times> pyval) list \<Rightarrow> string \<Rightarrow> estimator" where
  "framework_estimator docker_image_name rl hp bucket =
     \<lparr>cls = XGBoost,
      image_name = docker_image_name,
      entry_point = Some entry_point_script,
      role = rl,
      framework_version = Some ''0.90-2'',
      py_version = Some ''py3'',
      hyperparameters = hp,
      train_instance_count = 1,
      train_instance_type = ''ml.m5.large'',
      output_path = ''s3://'' @ bucket @ ''/'' @ prefix @ ''/output'',
      base_job_name = ''demo-xgboost-customer-churn''\<rparr>"

definition cell_framework_mode ::
  "world \<Rightarrow> string \<Rightarrow> string \<Rightarrow> (string \<times> pyval) list \<Rightarrow> string \<Rightarrow> s3_input \<times> s3_input \<Rightarrow> estimator prog" where
  "cell_framework_mode w docker_image_name rl hp bucket inputs =
     bind_prog (call w (New_estimator (framework_estimator docker_image_name rl hp bucket))
                  (\<lambda>_. framework_estimator docker_image_name rl hp bucket)) (\<lambda>framework_xgb.
     bind_prog (call w (Fit framework_xgb [(''train'', fst inputs), (''validation'', snd inputs)]) (\<lambda>_. ())) (\<lambda>_.
     ret framework_xgb))"

text \<open>Cell 11: the endpoint name, stamped with the UTC clock, is built and printed.\<close>

definition cell_endpoint_name :: "world \<Rightarrow> string prog" where
  "cell_endpoint_name w =
     bind_prog (ret (prefix @ ''/datacapture'')) (\<lambda>data_capture_prefix.
     bind_prog (ret (''demo-xgboost-customer-churn-'' @ strftime ''%Y-%m-%d-%H-%M-%S'' (gmtime w))) (\<lambda>endpoint_name.
     bind_prog (emit (Print (''EndpointName = '' @ endpoint_name))) (\<lambda>_.
     ret endpoint_name)))"

text \<open>Cell 12: the model of the estimator \<^verbatim>\<open>xgb\<close> is deployed under that name.\<close>

definition cell_deploy :: "world \<Rightarrow> estimator \<Rightarrow> string \<Rightarrow> predictor prog" where
  "cell_deploy w xgb endpoint_name =
     call w (Deploy xgb 1 ''ml.m5.large'' endpoint_name)
       (\<lambda>_. \<lparr>endpoint = attached_endpoint w endpoint_name,
             predictor_content_type = None, serializer = None, deserializer = None\<rparr>)"

text \<open>Cell 13: the predictor is set up to send CSV text and to hand back the raw response.\<close>

definition cell_serializers :: "predictor \<Rightarrow> predictor prog" where
  "cell_serializers xgb_predictor =
     ret (xgb_predictor\<lparr>predictor_content_type := Some ''text/csv'',
                        serializer := Some ''csv_serializer'',
                        deserializer := None\<rparr>)"

text \<open>
  Cell 14: one request per row of the test sample, half a second apart. The file is read
  as the loop goes: \<open>invoke_rows\<close> takes the rows that are still to come, asks the file
  for the next one before each pass, and ends the loop with the read that finds no row
  left. A read that raises ends the run there, after the requests already sent. Leaving
  the \<^verbatim>\<open>with\<close> block closes the file on either way out; closing is not logged.
\<close>

fun invoke_rows :: "world \<Rightarrow> predictor \<Rightarrow> string list \<Rightarrow> unit prog" where
  "invoke_rows w xgb_predictor [] = call w (Next_line ''data/test_sample.csv'') (\<lambda>_. ())"
| "invoke_rows w xgb_predictor (row # rows) =
     bind_prog (call w (Next_line ''data/test_sample.csv'') (\<lambda>_. row)) (\<lambda>row.
     bind_prog (ret (rstrip_newline row)) (\<lambda>payload.
     bind_prog (call w (Predict xgb_predictor payload) (\<lambda>lg. respond w lg payload)) (\<lambda>response.
     bind_prog (emit (Print response)) (\<lambda>_.
     bind_prog (emit (Sleep (1 / 2))) (\<lambda>_.
     invoke_rows w xgb_predictor rows)))))"

definition traffic_message :: "string \<Rightarrow> string" where
  "traffic_message endpoint_name =
     ''Sending test traffic to the endpoint '' @ endpoint_name @ ''. '' @ [LF] @ ''Please wait for a minute...''"

definition cell_invoke :: "world \<Rightarrow> string \<Rightarrow> predictor \<Rightarrow> unit prog" where
  "cell_invoke w endpoint_name xgb_predictor =
     bind_prog (emit (Print (traffic_message endpoint_name))) (\<lambda>_.
     bind_prog (call w (Open_file ''data/test_sample.csv'' ''r'') (\<lambda>_. ())) (\<lambda>f.
     invoke_rows w xgb_predictor (file_rows (test_sample w))))"

text \<open>Cell 15: clean-up.\<close>

definition cell_cleanup :: "world \<Rightarrow> predictor \<Rightarrow> unit prog" where
  "cell_cleanup w xgb_predictor = call w (Delete_endpoint (endpoint xgb_predictor)) (\<lambda>_. ())"

text \<open>The notebook: its code cells in order, each reading the names bound before it.\<close>

definition notebook :: "world \<Rightarrow> unit prog" where
  "notebook w =
     bind_prog (cell_session w) (\<lambda>rl.
     bind_prog (cell_data w) (\<lambda>_.
     bind_prog (cell_upload w) (\<lambda>bucket.
     bind_prog (cell_image w) (\<lambda>docker_image_name.
     bind_prog (cell_inputs w bucket) (\<lambda>inputs.
     bind_prog cell_hyperparams (\<lambda>hp.
     bind_prog (cell_algorithm_mode w docker_image_name rl hp bucket inputs) (\<lambda>xgb.
     bind_prog cell_pygmentize (\<lambda>_.
     bind_prog (cell_framework_mode w docker_image_name rl hp bucket inputs) (\<lambda>framework_xgb.
     bind_prog (cell_endpoint_name w) (\<lambda>endpoint_name.
     bind_prog (cell_deploy w xgb endpoint_name) (\<lambda>xgb_predictor.
     bind_prog (cell_serializers xgb_predictor) (\<lambda>xgb_predictor.
     bind_prog (cell_invoke w endpoint_name xgb_predictor) (\<lambda>_.
     cell_cleanup w xgb_predictor)))))))))))))"

text \<open>A run starts with an empty log.\<close>

definition run :: "world \<Rightarrow> (raised + unit) \<times> event list" where
  "run w = notebook w []"

subsection \<open>Reading a log\<close>

text \<open>
  The steps the specification lists for a run: the local CSV read, an upload, the
  hyperparameter dictionary, a training job (with the class of its estimator), the
  deployment, a request to the endpoint, and the teardown. Every other event belongs to
  none of them.
\<close>

datatype stage = Inspect | Upload | Configure | Train estimator_class | Deployment | Request_row | Teardown

fun stage_of :: "event \<Rightarrow> stage option" where
  "stage_of (Called (Read_csv path)) = Some Inspect"
| "stage_of (Called (S3_upload path dest)) = Some Upload"
| "stage_of (Dict_literal d) = Some Configure"
| "stage_of (Called (Fit e ch)) = Some (Train (cls e))"
| "stage_of (Called (Deploy e n t name)) = Some Deployment"
| "stage_of (Called (Predict p x)) = Some Request_row"
| "stage_of (Called (Delete_endpoint name)) = Some Teardown"
| "stage_of _ = None"

text \<open>
  Views of single events, to be used with \<open>List.map_filter\<close>: the bucket and location
  constraint of a bucket creation, the local path and destination of an upload, the
  estimator class, hyperparameters and channels of a training job, the calls that
  involve an estimator, requests and sleeps, the payload and the predictor of a request,
  and the endpoint names that are deployed and deleted.
\<close>

fun bucket_created :: "event \<Rightarrow> (string \<times> string option) option" where
  "bucket_created (Called (Create_bucket b l)) = Some (b, l)"
| "bucket_created _ = None"

fun upload_of :: "event \<Rightarrow> (string \<times> string) option" where
  "upload_of (Called (S3_upload path dest)) = Some (path, dest)"
| "upload_of _ = None"

fun fit_of :: "event \<Rightarrow> (estimator_class \<times> (string \<times> pyval) list \<times> (string \<times> s3_input) list) option" where
  "fit_of (Called (Fit e ch)) = Some (cls e, hyperparameters e, ch)"
| "fit_of _ = None"

fun estimator_step :: "event \<Rightarrow> call option" where
  "estimator_step (Called (New_estimator e)) = Some (New_estimator e)"
| "estimator_step (Called (Fit e ch)) = Some (Fit e ch)"
| "estimator_step (Called (Deploy e n t name)) = Some (Deploy e n t name)"
| "estimator_step _ = None"

fun request_or_sleep :: "event \<Rightarrow> (string + rat) option" where
  "request_or_sleep (Called (Predict p x)) = Some (Inl x)"
| "request_or_sleep (Sleep d) = Some (Inr d)"
| "request_or_sleep _ = None"

fun payload_of :: "event \<Rightarrow> string option" where
  "payload_of (Called (Predict p x)) = Some x"
| "payload_of _ = None"

fun predictor_of :: "event \<Rightarrow> predictor option" where
  "predictor_of (Called (Predict p x)) = Some p"
| "predictor_of _ = None"

fun deployed_name :: "event \<Rightarrow> string option" where
  "deployed_name (Called (Deploy e n t name)) = Some name"
| "deployed_name _ = None"

fun deleted_name :: "event \<Rightarrow> string option" where
  "deleted_name (Called (Delete_endpoint name)) = Some name"
| "deleted_name _ = None"

text \<open>
  The file that a call sends to S3 from the machine the notebook runs on.
  \<^verbatim>\<open>S3Uploader.upload\<close> sends the local file it is given. The \<^verbatim>\<open>fit\<close> of a framework
  estimator that has a local entry point first packs the script into
  \<^verbatim>\<open>sourcedir.tar.gz\<close> and sends that to the bucket of its output path (SageMaker Python
  SDK 1.x, where the framework estimator stages the user code before it creates the
  training job); the \<^verbatim>\<open>fit\<close> of the generic estimator, which has no entry point, sends
  nothing. No other call of the notebook uploads a file.
\<close>

fun file_put :: "event \<Rightarrow> string option" where
  "file_put (Called (S3_upload path dest)) = Some path"
| "file_put (Called (Fit e ch)) =
     (if cls e = XGBoost \<and> entry_point e \<noteq> None then Some ''sourcedir.tar.gz'' else None)"
| "file_put _ = None"

fun is_Called :: "event \<Rightarrow> bool" where
  "is_Called (Called c) = True"
| "is_Called _ = False"

fun is_Predict :: "call \<Rightarrow> bool" where
  "is_Predict (Predict p x) = True"
| "is_Predict _ = False"

text \<open>
  Every request in the events \<open>evs\<close>, which follow the log \<open>pre\<close>, is followed at once
  by the print of the response that the world gave to it.
\<close>

fun answered :: "world \<Rightarrow> event list \<Rightarrow> event list \<Rightarrow> bool" where
  "answered w pre [] = True"
| "answered w pre (Called (Predict p x) # evs) =
     (take 1 evs = [Print (respond w pre x)] \<and> answered w (pre @ [Called (Predict p x)]) evs)"
| "answered w pre (ev # evs) = answered w (pre @ [ev]) evs"

text \<open>
  The payloads as the specification words them: one for each line of the file, a line
  ending at a line feed, with the trailing line feeds removed and every other character,
  a carriage return included, unchanged.
\<close>

definition claimed_payloads :: "string \<Rightarrow> string list" where
  "claimed_payloads s = map rstrip_newline (split_lines s)"

subsection \<open>The values a run computes\<close>

text \<open>
  Everything the cells compute is a function of the world: the bucket name, the location
  constraint of the bucket, the endpoint name, the two estimators, the channels and the
  predictor after cell 13.
\<close>

definition bucket_name :: "world \<Rightarrow> string" where
  "bucket_name w = ''sagemaker-'' @ region_name w @ ''-'' @ account w"

definition location :: "world \<Rightarrow> string option" where
  "location w = (if region_name w = ''us-east-1'' then None else Some (region_name w))"

definition endpoint_name :: "world \<Rightarrow> string" where
  "endpoint_name w = ''demo-xgboost-customer-churn-'' @ strftime ''%Y-%m-%d-%H-%M-%S'' (gmtime w)"

definition xgb :: "world \<Rightarrow> estimator" where
  "xgb w = xgb_estimator (image_uri w (region_name w) ''xgboost'') (execution_role w) hyperparams (bucket_name w)"

definition framework_xgb :: "world \<Rightarrow> estimator" where
  "framework_xgb w =
     framework_estimator (image_uri w (region_name w) ''xgboost'') (execution_role w) hyperparams (bucket_name w)"

definition channels :: "world \<Rightarrow> (string \<times> s3_input) list" where
  "channels w =
     [(''train'', S3_input (''s3://'' @ bucket_name w @ ''/xgboost-churn/train'') ''csv''),
      (''validation'', S3_input (''s3://'' @ bucket_name w @ ''/xgboost-churn/validation/'') ''csv'')]"

definition xgb_predictor :: "world \<Rightarrow> predictor" where
  "xgb_predictor w =
     \<lparr>endpoint = attached_endpoint w (endpoint_name w),
      predictor_content_type = Some ''text/csv'',
      serializer = Some ''csv_serializer'',
      deserializer = None\<rparr>"

definition train_destination :: "world \<Rightarrow> string" where
  "train_destination w = ''s3://'' @ bucket_name w @ ''/xgboost-churn/train''"

definition validation_destination :: "world \<Rightarrow> string" where
  "validation_destination w = ''s3://'' @ bucket_name w @ ''/xgboost-churn/validation''"

subsection \<open>The notebook as a list of steps\<close>

text \<open>
  The notebook has no branch that depends on what a call returns, so a run is the run of
  a list of steps fixed by the world: a call, an output, the guarded call of the
  \<^verbatim>\<open>try\<close> statement with the message its handler prints, and a request whose response
  is printed. \<open>exec\<close> runs such a list with the combinators the cells are written in;
  \<open>notebook_exec\<close> below proves that the cells are the run of \<open>plan\<close>.
\<close>

datatype step = Do call | Out event | Guarded call string | Request predictor string

fun exec :: "world \<Rightarrow> step list \<Rightarrow> unit prog" where
  "exec w [] = ret ()"
| "exec w (Do c # ss) = bind_prog (call w c (\<lambda>_. ())) (\<lambda>_. exec w ss)"
| "exec w (Out ev # ss) = bind_prog (emit ev) (\<lambda>_. exec w ss)"
| "exec w (Guarded c msg # ss) =
     bind_prog (try_except (call w c (\<lambda>_. ())) is_Exception (emit (Print msg))) (\<lambda>_. exec w ss)"
| "exec w (Request p x # ss) =
     bind_prog (call w (Predict p x) (\<lambda>lg. respond w lg x)) (\<lambda>response.
     bind_prog (emit (Print response)) (\<lambda>_. exec w ss))"

text \<open>
  The events of a list of steps that runs to its end after the log \<open>lg\<close>: the handler's
  message appears when the guarded call raises, and a printed response is the one the
  world gives for the log before the request.
\<close>

fun trace :: "world \<Rightarrow> event list \<Rightarrow> step list \<Rightarrow> event list" where
  "trace w lg [] = []"
| "trace w lg (Do c # ss) = Called c # trace w (lg @ [Called c]) ss"
| "trace w lg (Out ev # ss) = ev # trace w (lg @ [ev]) ss"
| "trace w lg (Guarded c msg # ss) =
     (case raises w lg c of
        None \<Rightarrow> Called c # trace w (lg @ [Called c]) ss
      | Some e \<Rightarrow> Called c # Print msg # trace w (lg @ [Called c, Print msg]) ss)"
| "trace w lg (Request p x # ss) =
     Called (Predict p x) # Print (respond w lg x) #
       trace w (lg @ [Called (Predict p x), Print (respond w lg x)]) ss"

text \<open>The events of the steps that do not depend on the log: all but the two kinds of print.\<close>

fun skeleton :: "step list \<Rightarrow> event list" where
  "skeleton [] = []"
| "skeleton (Do c # ss) = Called c # skeleton ss"
| "skeleton (Out ev # ss) = ev # skeleton ss"
| "skeleton (Guarded c msg # ss) = Called c # skeleton ss"
| "skeleton (Request p x # ss) = Called (Predict p x) # skeleton ss"

text \<open>
  In a tidy list an output is never a call, and a request to the endpoint is always a
  \<open>Request\<close> step.
\<close>

fun tidy :: "step list \<Rightarrow> bool" where
  "tidy [] = True"
| "tidy (Do c # ss) = (\<not> is_Predict c \<and> tidy ss)"
| "tidy (Out ev # ss) = (\<not> is_Called ev \<and> tidy ss)"
| "tidy (Guarded c msg # ss) = (\<not> is_Predict c \<and> tidy ss)"
| "tidy (Request p x # ss) = tidy ss"

fun is_Guarded :: "step \<Rightarrow> bool" where
  "is_Guarded (Guarded c msg) = True"
| "is_Guarded _ = False"

definition request_plan :: "predictor \<Rightarrow> string list \<Rightarrow> step list" where
  "request_plan p rows =
     concat (map (\<lambda>row. [Do (Next_line ''data/test_sample.csv''),
                          Request p (rstrip_newline row),
                          Out (Sleep (1 / 2))]) rows) @
     [Do (Next_line ''data/test_sample.csv'')]"

definition plan_setup :: "world \<Rightarrow> step list" where
  "plan_setup w =
     [Do Boto3_Session,
      Do (Client ''sagemaker''),
      Do Get_execution_role,
      Do (Read_csv ''./data/training-dataset-with-header.csv''),
      Do (Set_option ''display.max_columns'' 500),
      Do (Set_option ''display.max_rows'' 10),
      Out (Display ''data''),
      Do (Get_caller_identity (region_name w))]"

definition plan_train :: "world \<Rightarrow> step list" where
  "plan_train w =
     [Do (S3_upload ''data/train.csv'' (train_destination w)),
      Out (Print (uploaded_uri w ''data/train.csv'' (train_destination w))),
      Do (S3_upload ''data/validation.csv'' (validation_destination w)),
      Out (Print (uploaded_uri w ''data/validation.csv'' (validation_destination w))),
      Do Boto3_Session,
      Do (Get_image_uri (region_name w) ''xgboost''),
      Do (New_s3_input (''s3://'' @ bucket_name w @ ''/xgboost-churn/train'') ''csv''),
      Do (New_s3_input (''s3://'' @ bucket_name w @ ''/xgboost-churn/validation/'') ''csv''),
      Out (Dict_literal hyperparams),
      Do Sagemaker_Session,
      Do (New_estimator (xgb w)),
      Do (Fit (xgb w) (channels w)),
      Out (Shell ''pygmentize xgboost_customer_churn.py''),
      Do (New_estimator (framework_xgb w)),
      Do (Fit (framework_xgb w) (channels w)),
      Out (Print (''EndpointName = '' @ endpoint_name w)),
      Do (Deploy (xgb w) 1 ''ml.m5.large'' (endpoint_name w)),
      Out (Print (traffic_message (endpoint_name w))),
      Do (Open_file ''data/test_sample.csv'' ''r'')]"

definition plan :: "world \<Rightarrow> step list" where
  "plan w =
     plan_setup w @ [Guarded (Create_bucket (bucket_name w) (location w)) bucket_exists_message] @
     plan_train w @ request_plan (xgb_predictor w) (file_rows (test_sample w)) @
     [Do (Delete_endpoint (attached_endpoint w (endpoint_name w)))]"

text \<open>
  What a raising call \<open>c\<close> in the log of a list of steps can be. It is uncaught when it
  comes from a plain call or a request, or from the guarded call with an exception that
  is no \<^verbatim>\<open>Exception\<close>. It is caught when it is the guarded call raising an \<^verbatim>\<open>Exception\<close>;
  then the log goes on with the handler's message and the steps after the guard.
\<close>

definition uncaught :: "step list \<Rightarrow> call \<Rightarrow> raised \<Rightarrow> bool" where
  "uncaught ss c e =
     (Do c \<in> set ss \<or> (\<exists>p x. c = Predict p x \<and> Request p x \<in> set ss) \<or>
      (\<not> is_Exception e \<and> (\<exists>msg. Guarded c msg \<in> set ss)))"

definition caught :: "world \<Rightarrow> step list \<Rightarrow> event list \<Rightarrow> call \<Rightarrow> raised \<Rightarrow> event list \<Rightarrow> bool" where
  "caught w ss pre c e post =
     (is_Exception e \<and> (\<exists>ss1 msg ss2. ss = ss1 @ Guarded c msg # ss2 \<and>
        pre @ Called c # post = snd (exec w ss2 (pre @ [Called c, Print msg]))))"

subsection \<open>Example worlds\<close>

text \<open>
  A world in which no call raises, in region \<^verbatim>\<open>eu-west-1\<close>, with a test sample of two
  rows; and the same world in region \<^verbatim>\<open>us-east-1\<close>.
\<close>

definition quiet_world :: world where
  "quiet_world =
     \<lparr>raises = (\<lambda>lg c. None),
      region_name = ''eu-west-1'',
      account = ''123456789012'',
      execution_role = ''arn:aws:iam::123456789012:role/SageMakerRole'',
      image_uri = (\<lambda>region algorithm. region @ ''/'' @ algorithm @ '':1''),
      uploaded_uri = (\<lambda>path dest. dest @ ''/'' @ path),
      gmtime = \<lparr>tm_year = 2020, tm_mon = 5, tm_mday = 7, tm_hour = 9, tm_min = 3, tm_sec = 1\<rparr>,
      attached_endpoint = (\<lambda>name. name),
      test_sample = ''1,2'' @ [LF] @ ''3,4'' @ [LF],
      respond = (\<lambda>lg x. ''0.02'')\<rparr>"

definition us_east_world :: world where
  "us_east_world = quiet_world\<lparr>region_name := ''us-east-1''\<rparr>"

text \<open>
  The quiet world with a test sample of one row that ends in a carriage return and a line
  feed; with a test sample that uses all three line endings and a response that echoes
  the payload; a world in which the test sample cannot be read on after the first
  request and sleep; and a world in which the bucket exists already and the training job
  of the framework estimator fails.
\<close>

definition crlf_world :: world where
  "crlf_world = quiet_world\<lparr>test_sample := ''1,2'' @ [CR, LF]\<rparr>"

definition mixed_world :: world where
  "mixed_world = quiet_world\<lparr>test_sample := ''1,2'' @ [CR, LF] @ ''3,4'' @ [LF] @ ''5,6'' @ [CR] @ ''7,8'',
     respond := (\<lambda>lg x. ''0.9:'' @ x)\<rparr>"

definition broken_file_world :: world where
  "broken_file_world = quiet_world\<lparr>raises :=
     (\<lambda>lg c. case c of
        Next_line path \<Rightarrow> if Sleep (1 / 2) \<in> set lg then Some (Exception ''UnicodeDecodeError'') else None
      | _ \<Rightarrow> None)\<rparr>"

definition failing_world :: world where
  "failing_world = quiet_world\<lparr>raises :=
     (\<lambda>lg c. case c of
        Create_bucket b l \<Rightarrow> Some (Exception ''ClientError'')
      | Fit e ch \<Rightarrow> if cls e = XGBoost then Some (Exception ''UnexpectedStatusException'') else None
      | _ \<Rightarrow> None)\<rparr>"

section \<open>The cells are the run of the plan\<close>

text \<open>
  Sequencing is associative and \<open>ret\<close> is its unit, so the nested cells flatten into one
  chain of calls and outputs; that chain is the run of \<open>plan\<close>, and the loop over the
  rows is the run of \<open>request_plan\<close>.
\<close>

lemma bind_ret [simp]: "bind_prog (ret x) f = f x"
  by (simp add: bind_prog_def ret_def)

lemma bind_ret_right [simp]: "bind_prog m ret = m"
  by (auto simp: bind_prog_def ret_def fun_eq_iff split: prod.splits sum.splits)

lemma bind_assoc [simp]: "bind_prog (bind_prog m f) g = bind_prog m (\<lambda>x. bind_prog (f x) g)"
  by (auto simp: bind_prog_def fun_eq_iff split: prod.splits sum.splits)

lemma bind_call_const: "bind_prog (call w c (\<lambda>_. k)) f = then_call w c (f k)"
  by (auto simp: then_call_def bind_prog_def call_def fun_eq_iff split: option.splits)

lemma bind_then_call: "bind_prog (then_call w c m) f = then_call w c (bind_prog m f)"
  by (simp add: then_call_def)

lemma call_unit: "call w c (\<lambda>_. ()) = then_call w c (ret ())"
  by (simp add: then_call_def)

lemma exec_Do: "exec w (Do c # ss) = then_call w c (exec w ss)"
  by (simp add: then_call_def)

lemma create_bucket_if:
  "create_bucket w b = try_except (call w (Create_bucket b (location w)) (\<lambda>_. ())) is_Exception (emit (Print bucket_exists_message))"
  by (simp add: create_bucket_def location_def)

lemma exec_append: "exec w (ss @ ts) = bind_prog (exec w ss) (\<lambda>_. exec w ts)"
  by (induction w ss rule: exec.induct) simp_all

lemma invoke_rows_exec: "invoke_rows w p rows = exec w (request_plan p rows)"
  by (induction rows) (simp_all add: request_plan_def bind_call_const exec_Do call_unit del: exec.simps(2))

lemmas cells = cell_session_def cell_data_def cell_upload_def cell_image_def cell_inputs_def
  cell_hyperparams_def cell_algorithm_mode_def cell_pygmentize_def cell_framework_mode_def
  cell_endpoint_name_def cell_deploy_def cell_serializers_def cell_invoke_def cell_cleanup_def

lemma notebook_exec: "notebook w = exec w (plan w)"
  unfolding notebook_def cells plan_def plan_setup_def plan_train_def
  by (simp add: exec_Do bind_call_const bind_then_call create_bucket_if call_unit invoke_rows_exec exec_append
      bucket_name_def train_destination_def validation_destination_def s3_path_def prefix_def
      local_data_path_def xgb_def framework_xgb_def channels_def endpoint_name_def xgb_predictor_def
      del: exec.simps(2))

section \<open>Runs of a list of steps\<close>

text \<open>
  What one step does to the log; then, by induction on the steps: a run that completes
  has logged exactly \<open>trace\<close>, any run has logged an initial part of it, a run that
  ends in an exception ends with the call that raised it, and a raising call inside the
  log is either uncaught and last, or caught by the guard.
\<close>

lemma exec_Do_run: "exec w (Do c # ss) lg =
  (case raises w lg c of Some e \<Rightarrow> (Inl e, lg @ [Called c]) | None \<Rightarrow> exec w ss (lg @ [Called c]))"
  by (simp add: bind_prog_def call_def split: option.splits)

lemma exec_Out_run: "exec w (Out ev # ss) lg = exec w ss (lg @ [ev])"
  by (simp add: bind_prog_def emit_def)

lemma exec_Guarded_run: "exec w (Guarded c msg # ss) lg =
  (case raises w lg c of
     None \<Rightarrow> exec w ss (lg @ [Called c])
   | Some e \<Rightarrow> if is_Exception e then exec w ss (lg @ [Called c, Print msg])
               else (Inl e, lg @ [Called c]))"
  by (simp add: bind_prog_def call_def try_except_def emit_def split: option.splits)

lemma exec_Request_run: "exec w (Request p x # ss) lg =
  (case raises w lg (Predict p x) of
     Some e \<Rightarrow> (Inl e, lg @ [Called (Predict p x)])
   | None \<Rightarrow> exec w ss (lg @ [Called (Predict p x), Print (respond w lg x)]))"
  by (simp add: bind_prog_def call_def emit_def split: option.splits)

lemma exec_Nil_run: "exec w [] lg = (Inr (), lg)"
  by (simp add: ret_def)

lemmas exec_run = exec_Nil_run exec_Do_run exec_Out_run exec_Guarded_run exec_Request_run

lemma exec_complete:
  "fst (exec w ss lg) = Inr () \<Longrightarrow> snd (exec w ss lg) = lg @ trace w lg ss"
proof (induction w lg ss rule: trace.induct)
  case (4 w lg c msg ss)
  then show ?case
    by (cases "raises w lg c") (auto simp: exec_run simp del: exec.simps split: if_splits)
qed (auto simp: exec_run ret_def simp del: exec.simps split: option.splits)

lemma exec_take:
  "\<exists>k. snd (exec w ss lg) = lg @ take k (trace w lg ss)"
proof (induction w lg ss rule: trace.induct)
  case (1 w lg)
  show ?case by (simp add: ret_def)
next
  case (2 w lg c ss)
  show ?case
  proof (cases "raises w lg c")
    case None
    from 2 obtain k where "snd (exec w ss (lg @ [Called c])) = (lg @ [Called c]) @ take k (trace w (lg @ [Called c]) ss)"
      by blast
    then have "snd (exec w (Do c # ss) lg) = lg @ take (Suc k) (trace w lg (Do c # ss))"
      using None by (simp add: exec_run del: exec.simps)
    then show ?thesis by blast
  next
    case (Some e)
    then have "snd (exec w (Do c # ss) lg) = lg @ take (Suc 0) (trace w lg (Do c # ss))"
      by (simp add: exec_run del: exec.simps)
    then show ?thesis by blast
  qed
next
  case (3 w lg ev ss)
  then obtain k where "snd (exec w ss (lg @ [ev])) = (lg @ [ev]) @ take k (trace w (lg @ [ev]) ss)"
    by blast
  then have "snd (exec w (Out ev # ss) lg) = lg @ take (Suc k) (trace w lg (Out ev # ss))"
    by (simp add: exec_run del: exec.simps)
  then show ?case by blast
next
  case (4 w lg c msg ss)
  show ?case
  proof (cases "raises w lg c")
    case None
    from 4(1)[OF None] obtain k where "snd (exec w ss (lg @ [Called c])) = (lg @ [Called c]) @ take k (trace w (lg @ [Called c]) ss)"
      by blast
    then have "snd (exec w (Guarded c msg # ss) lg) = lg @ take (Suc k) (trace w lg (Guarded c msg # ss))"
      using None by (simp add: exec_run del: exec.simps)
    then show ?thesis by blast
  next
    case (Some e)
    show ?thesis
    proof (cases "is_Exception e")
      case True
      from 4(2)[OF Some] obtain k where "snd (exec w ss (lg @ [Called c, Print msg])) =
          (lg @ [Called c, Print msg]) @ take k (trace w (lg @ [Called c, Print msg]) ss)"
        by blast
      then have "snd (exec w (Guarded c msg # ss) lg) = lg @ take (Suc (Suc k)) (trace w lg (Guarded c msg # ss))"
        using Some True by (simp add: exec_run del: exec.simps)
      then show ?thesis by blast
    next
      case False
      then have "snd (exec w (Guarded c msg # ss) lg) = lg @ take (Suc 0) (trace w lg (Guarded c msg # ss))"
        using Some by (simp add: exec_run del: exec.simps)
      then show ?thesis by blast
    qed
  qed
next
  case (5 w lg p x ss)
  show ?case
  proof (cases "raises w lg (Predict p x)")
    case None
    from 5 obtain k where "snd (exec w ss (lg @ [Called (Predict p x), Print (respond w lg x)])) =
        (lg @ [Called (Predict p x), Print (respond w lg x)]) @
          take k (trace w (lg @ [Called (Predict p x), Print (respond w lg x)]) ss)"
      by blast
    then have "snd (exec w (Request p x # ss) lg) = lg @ take (Suc (Suc k)) (trace w lg (Request p x # ss))"
      using None by (simp add: exec_run del: exec.simps)
    then show ?thesis by blast
  next
    case (Some e)
    then have "snd (exec w (Request p x # ss) lg) = lg @ take (Suc 0) (trace w lg (Request p x # ss))"
      by (simp add: exec_run del: exec.simps)
    then show ?thesis by blast
  qed
qed

lemma view_trace:
  "(\<And>s. f (Print s) = None) \<Longrightarrow> List.map_filter f (trace w lg ss) = List.map_filter f (skeleton ss)"
  by (induction w lg ss rule: trace.induct) (auto split: option.splits)

lemma map_filter_append: "List.map_filter f (xs @ ys) = List.map_filter f xs @ List.map_filter f ys"
  by (simp add: List.map_filter_def)

lemma map_filter_take: "\<exists>j. List.map_filter f (take k xs) = take j (List.map_filter f xs)"
proof (induction xs arbitrary: k)
  case Nil
  show ?case by simp
next
  case (Cons x xs)
  show ?case
  proof (cases k)
    case 0
    have "List.map_filter f (take 0 (x # xs)) = take 0 (List.map_filter f (x # xs))" by simp
    with 0 show ?thesis by blast
  next
    case (Suc n)
    from Cons[of n] obtain j where j: "List.map_filter f (take n xs) = take j (List.map_filter f xs)"
      by blast
    show ?thesis
    proof (cases "f x")
      case None
      with j Suc have "List.map_filter f (take k (x # xs)) = take j (List.map_filter f (x # xs))" by simp
      then show ?thesis by blast
    next
      case (Some y)
      with j Suc have "List.map_filter f (take k (x # xs)) = take (Suc j) (List.map_filter f (x # xs))" by simp
      then show ?thesis by blast
    qed
  qed
qed

lemma skeleton_append: "skeleton (ss @ ts) = skeleton ss @ skeleton ts"
  by (induction ss rule: skeleton.induct) simp_all

lemma skeleton_request_plan:
  "skeleton (request_plan p rows) =
     concat (map (\<lambda>row. [Called (Next_line ''data/test_sample.csv''),
                          Called (Predict p (rstrip_newline row)),
                          Sleep (1 / 2)]) rows) @
     [Called (Next_line ''data/test_sample.csv'')]"
  by (induction rows) (simp_all add: request_plan_def)

lemma exec_extends: "\<exists>evs. snd (exec w ss lg) = lg @ evs"
  using exec_take by blast

lemma exec_Inl:
  "fst (exec w ss lg) = Inl e \<Longrightarrow>
   \<exists>a c. snd (exec w ss lg) = lg @ a @ [Called c] \<and> raises w (lg @ a) c = Some e"
proof (induction ss arbitrary: lg)
  case Nil
  then show ?case by (simp add: ret_def)
next
  case (Cons s ss)
  show ?case
  proof (cases s)
    case (Do c)
    show ?thesis
    proof (cases "raises w lg c")
      case None
      with Cons.prems Do have "fst (exec w ss (lg @ [Called c])) = Inl e"
        by (simp add: exec_run del: exec.simps)
      from Cons.IH[OF this] obtain a d where
        "snd (exec w ss (lg @ [Called c])) = (lg @ [Called c]) @ a @ [Called d]"
        "raises w ((lg @ [Called c]) @ a) d = Some e" by blast
      then have "snd (exec w (s # ss) lg) = lg @ (Called c # a) @ [Called d] \<and>
                 raises w (lg @ (Called c # a)) d = Some e"
        using None Do by (simp add: exec_run del: exec.simps)
      then show ?thesis by blast
    next
      case (Some e')
      with Cons.prems Do have "snd (exec w (s # ss) lg) = lg @ [] @ [Called c] \<and> raises w (lg @ []) c = Some e"
        by (simp add: exec_run del: exec.simps)
      then show ?thesis by blast
    qed
  next
    case (Out ev)
    with Cons.prems have "fst (exec w ss (lg @ [ev])) = Inl e"
      by (simp add: exec_run del: exec.simps)
    from Cons.IH[OF this] obtain a d where
      "snd (exec w ss (lg @ [ev])) = (lg @ [ev]) @ a @ [Called d]"
      "raises w ((lg @ [ev]) @ a) d = Some e" by blast
    then have "snd (exec w (s # ss) lg) = lg @ (ev # a) @ [Called d] \<and>
               raises w (lg @ (ev # a)) d = Some e"
      using Out by (simp add: exec_run del: exec.simps)
    then show ?thesis by blast
  next
    case (Guarded c msg)
    show ?thesis
    proof (cases "raises w lg c")
      case None
      with Cons.prems Guarded have "fst (exec w ss (lg @ [Called c])) = Inl e"
        by (simp add: exec_run del: exec.simps)
      from Cons.IH[OF this] obtain a d where
        "snd (exec w ss (lg @ [Called c])) = (lg @ [Called c]) @ a @ [Called d]"
        "raises w ((lg @ [Called c]) @ a) d = Some e" by blast
      then have "snd (exec w (s # ss) lg) = lg @ (Called c # a) @ [Called d] \<and>
                 raises w (lg @ (Called c # a)) d = Some e"
        using None Guarded by (simp add: exec_run del: exec.simps)
      then show ?thesis by blast
    next
      case (Some e')
      show ?thesis
      proof (cases "is_Exception e'")
        case True
        with Cons.prems Guarded Some have "fst (exec w ss (lg @ [Called c, Print msg])) = Inl e"
          by (simp add: exec_run del: exec.simps)
        from Cons.IH[OF this] obtain a d where
          "snd (exec w ss (lg @ [Called c, Print msg])) = (lg @ [Called c, Print msg]) @ a @ [Called d]"
          "raises w ((lg @ [Called c, Print msg]) @ a) d = Some e" by blast
        then have "snd (exec w (s # ss) lg) = lg @ (Called c # Print msg # a) @ [Called d] \<and>
                   raises w (lg @ (Called c # Print msg # a)) d = Some e"
          using Some True Guarded by (simp add: exec_run del: exec.simps)
        then show ?thesis by blast
      next
        case False
        with Cons.prems Guarded Some
        have "snd (exec w (s # ss) lg) = lg @ [] @ [Called c] \<and> raises w (lg @ []) c = Some e"
          by (simp add: exec_run del: exec.simps)
        then show ?thesis by blast
      qed
    qed
  next
    case (Request p x)
    show ?thesis
    proof (cases "raises w lg (Predict p x)")
      case None
      let ?lg = "lg @ [Called (Predict p x), Print (respond w lg x)]"
      from None Cons.prems Request have "fst (exec w ss ?lg) = Inl e"
        by (simp add: exec_run del: exec.simps)
      from Cons.IH[OF this] obtain a d where
        "snd (exec w ss ?lg) = ?lg @ a @ [Called d]" "raises w (?lg @ a) d = Some e" by blast
      then have "snd (exec w (s # ss) lg) = lg @ (Called (Predict p x) # Print (respond w lg x) # a) @ [Called d] \<and>
                 raises w (lg @ (Called (Predict p x) # Print (respond w lg x) # a)) d = Some e"
        using None Request by (simp add: exec_run del: exec.simps)
      then show ?thesis by blast
    next
      case (Some e')
      with Cons.prems Request
      have "snd (exec w (s # ss) lg) = lg @ [] @ [Called (Predict p x)] \<and> raises w (lg @ []) (Predict p x) = Some e"
        by (simp add: exec_run del: exec.simps)
      then show ?thesis by blast
    qed
  qed
qed

lemma uncaught_Cons: "uncaught ss c e \<Longrightarrow> uncaught (s # ss) c e"
  by (auto simp: uncaught_def)

lemma caught_Cons: "caught w ss pre c e post \<Longrightarrow> caught w (s # ss) pre c e post"
  unfolding caught_def by (metis append_Cons)

lemma exec_raise:
  assumes "tidy ss"
    and "snd (exec w ss lg) = lg @ a @ Called c # post"
    and "raises w (lg @ a) c = Some e"
  shows "(post = [] \<and> fst (exec w ss lg) = Inl e \<and> uncaught ss c e) \<or> caught w ss (lg @ a) c e post"
  using assms
proof (induction ss arbitrary: lg a)
  case Nil
  then show ?case by (simp add: ret_def)
next
  case (Cons s ss)
  have step: "\<And>lg' a'. tidy ss \<Longrightarrow> snd (exec w ss lg') = lg' @ a' @ Called c # post \<Longrightarrow> lg' @ a' = lg @ a \<Longrightarrow>
     exec w (s # ss) lg = exec w ss lg' \<Longrightarrow> ?case"
  proof -
    fix lg' a'
    assume so: "tidy ss" and 1: "snd (exec w ss lg') = lg' @ a' @ Called c # post"
      and 2: "lg' @ a' = lg @ a" and 3: "exec w (s # ss) lg = exec w ss lg'"
    from Cons.prems(3) 2 have "raises w (lg' @ a') c = Some e" by simp
    from Cons.IH[OF so 1 this] show ?case
      using 2 3 by (auto intro: uncaught_Cons caught_Cons)
  qed
  show ?case
  proof (cases s)
    case (Do c')
    show ?thesis
    proof (cases "raises w lg c'")
      case None
      obtain evs where evs: "snd (exec w ss (lg @ [Called c'])) = (lg @ [Called c']) @ evs"
        using exec_extends by blast
      with Cons.prems(2) None Do have eq: "Called c' # evs = a @ Called c # post"
        by (simp add: exec_run del: exec.simps)
      show ?thesis
      proof (cases a)
        case Nil
        with eq Cons.prems(3) None show ?thesis by simp
      next
        case (Cons x a')
        with eq have "x = Called c'" "evs = a' @ Called c # post" by simp_all
        then show ?thesis
          using step[of "lg @ [Called c']" a'] Cons.prems(1) evs Cons None Do
          by (simp add: exec_run del: exec.simps)
      qed
    next
      case (Some e')
      with Cons.prems(2) Do have "a = [] \<and> c = c' \<and> post = []"
        by (simp add: exec_run Cons_eq_append_conv del: exec.simps)
      then show ?thesis
        using Some Cons.prems(3) Do by (simp add: exec_run uncaught_def del: exec.simps)
    qed
  next
    case (Out ev)
    obtain evs where evs: "snd (exec w ss (lg @ [ev])) = (lg @ [ev]) @ evs"
      using exec_extends by blast
    with Cons.prems(2) Out have eq: "ev # evs = a @ Called c # post"
      by (simp add: exec_run del: exec.simps)
    show ?thesis
    proof (cases a)
      case Nil
      with eq Cons.prems(1) Out show ?thesis by simp
    next
      case (Cons x a')
      with eq have "x = ev" "evs = a' @ Called c # post" by simp_all
      then show ?thesis
        using step[of "lg @ [ev]" a'] Cons.prems(1) evs Cons Out
        by (simp add: exec_run del: exec.simps)
    qed
  next
    case (Guarded c' msg)
    show ?thesis
    proof (cases "raises w lg c'")
      case None
      obtain evs where evs: "snd (exec w ss (lg @ [Called c'])) = (lg @ [Called c']) @ evs"
        using exec_extends by blast
      with Cons.prems(2) None Guarded have eq: "Called c' # evs = a @ Called c # post"
        by (simp add: exec_run del: exec.simps)
      show ?thesis
      proof (cases a)
        case Nil
        with eq Cons.prems(3) None show ?thesis by simp
      next
        case (Cons x a')
        with eq have "x = Called c'" "evs = a' @ Called c # post" by simp_all
        then show ?thesis
          using step[of "lg @ [Called c']" a'] Cons.prems(1) evs Cons None Guarded
          by (simp add: exec_run del: exec.simps)
      qed
    next
      case (Some e')
      show ?thesis
      proof (cases "is_Exception e'")
        case True
        let ?lg = "lg @ [Called c', Print msg]"
        obtain evs where evs: "snd (exec w ss ?lg) = ?lg @ evs"
          using exec_extends by blast
        with Cons.prems(2) Some True Guarded have eq: "Called c' # Print msg # evs = a @ Called c # post"
          by (simp add: exec_run del: exec.simps)
        show ?thesis
        proof (cases a)
          case Nil
          with eq have c: "c = c'" "post = Print msg # evs" by simp_all
          with Some Cons.prems(3) Nil have "e = e'" by simp
          have "s # ss = [] @ Guarded c msg # ss" using Guarded c by simp
          moreover have "(lg @ a) @ Called c # post = snd (exec w ss ((lg @ a) @ [Called c, Print msg]))"
            using evs c Nil by simp
          ultimately show ?thesis
            unfolding caught_def using True \<open>e = e'\<close> by blast
        next
          case (Cons x a')
          with eq have x: "x = Called c'" "Print msg # evs = a' @ Called c # post" by simp_all
          then obtain a'' where a'': "a' = Print msg # a''" "evs = a'' @ Called c # post"
            by (cases a') simp_all
          then show ?thesis
            using step[of ?lg a''] Cons.prems(1) evs Cons Some True Guarded x
            by (simp add: exec_run del: exec.simps)
        qed
      next
        case False
        with Some Cons.prems(2) Guarded have "a = [] \<and> c = c' \<and> post = []"
          by (simp add: exec_run Cons_eq_append_conv del: exec.simps)
        then show ?thesis
          using Some False Cons.prems(3) Guarded by (auto simp add: exec_run uncaught_def simp del: exec.simps)
      qed
    qed
  next
    case (Request p x)
    show ?thesis
    proof (cases "raises w lg (Predict p x)")
      case None
      let ?lg = "lg @ [Called (Predict p x), Print (respond w lg x)]"
      obtain evs where evs: "snd (exec w ss ?lg) = ?lg @ evs"
        using exec_extends by blast
      with Cons.prems(2) None Request have eq: "Called (Predict p x) # Print (respond w lg x) # evs = a @ Called c # post"
        by (simp add: exec_run del: exec.simps)
      show ?thesis
      proof (cases a)
        case Nil
        with eq Cons.prems(3) None show ?thesis by simp
      next
        case (Cons y a')
        with eq have y: "y = Called (Predict p x)" "Print (respond w lg x) # evs = a' @ Called c # post" by simp_all
        then obtain a'' where a'': "a' = Print (respond w lg x) # a''" "evs = a'' @ Called c # post"
          by (cases a') simp_all
        then show ?thesis
          using step[of ?lg a''] Cons.prems(1) evs Cons None Request y
          by (simp add: exec_run del: exec.simps)
      qed
    next
      case (Some e')
      with Cons.prems(2) Request have "a = [] \<and> c = Predict p x \<and> post = []"
        by (simp add: exec_run Cons_eq_append_conv del: exec.simps)
      then show ?thesis
        using Some Cons.prems(3) Request by (auto simp add: exec_run uncaught_def simp del: exec.simps)
    qed
  qed
qed

section \<open>Runs of the notebook\<close>

text \<open>
  The same facts for \<open>run\<close>. A view that ignores printed text sees, in a complete run,
  what it sees in the skeleton of the plan, and in any run an initial part of that.
\<close>

lemma run_exec: "run w = exec w (plan w) []"
  by (simp add: run_def notebook_exec)

lemma run_complete: "fst (run w) = Inr () \<Longrightarrow> snd (run w) = trace w [] (plan w)"
  using exec_complete[of w "plan w" "[]"] by (simp add: run_exec)

lemma run_take: "\<exists>k. snd (run w) = take k (trace w [] (plan w))"
  using exec_take[of w "plan w" "[]"] by (simp add: run_exec)

lemma view_complete:
  assumes "\<And>s. f (Print s) = None" and "fst (run w) = Inr ()"
  shows "List.map_filter f (snd (run w)) = List.map_filter f (skeleton (plan w))"
  using run_complete[OF assms(2)] view_trace[of f w "[]" "plan w", OF assms(1)] by simp

lemma view_any:
  assumes "\<And>s. f (Print s) = None"
  shows "\<exists>j. List.map_filter f (snd (run w)) = take j (List.map_filter f (skeleton (plan w)))"
proof -
  obtain k where "snd (run w) = take k (trace w [] (plan w))" using run_take by blast
  moreover obtain j where "List.map_filter f (take k (trace w [] (plan w))) = take j (List.map_filter f (trace w [] (plan w)))"
    using map_filter_take by blast
  ultimately show ?thesis using view_trace[of f w "[]" "plan w", OF assms] by auto
qed

lemma map_filter_concat: "List.map_filter f (concat xss) = concat (map (List.map_filter f) xss)"
  by (induction xss) (simp_all add: map_filter_append)

lemma no_raise_completes: "(\<And>lg c. raises w lg c = None) \<Longrightarrow> fst (exec w ss lg) = Inr ()"
  by (induction w ss arbitrary: lg rule: exec.induct) (simp_all add: exec_run ret_def del: exec.simps)

lemma quiet_world_completes: "fst (run quiet_world) = Inr ()"
  by (rule no_raise_completes[of quiet_world "plan quiet_world" "[]", folded run_exec]) (simp add: quiet_world_def)

lemma us_east_world_completes: "fst (run us_east_world) = Inr ()"
  by (rule no_raise_completes[of us_east_world "plan us_east_world" "[]", folded run_exec])
     (simp add: quiet_world_def us_east_world_def)

lemma skeleton_plan:
  "skeleton (plan w) = skeleton (plan_setup w) @ [Called (Create_bucket (bucket_name w) (location w))] @
     skeleton (plan_train w) @
     concat (map (\<lambda>row. [Called (Next_line ''data/test_sample.csv''),
                          Called (Predict (xgb_predictor w) (rstrip_newline row)),
                          Sleep (1 / 2)]) (file_rows (test_sample w))) @
     [Called (Next_line ''data/test_sample.csv''),
      Called (Delete_endpoint (attached_endpoint w (endpoint_name w)))]"
  by (simp add: plan_def skeleton_append skeleton_request_plan)

lemmas plan_views = skeleton_plan plan_setup_def plan_train_def map_filter_append map_filter_concat

lemma skeleton_in_trace: "set (skeleton ss) \<subseteq> set (trace w lg ss)"
  by (induction w lg ss rule: trace.induct) (auto split: option.splits)

lemma trace_snoc_Do: "trace w lg (ss @ [Do c]) = trace w lg ss @ [Called c]"
  by (induction w lg ss rule: trace.induct) (auto split: option.splits)

lemma plan_snoc: "plan w = (plan_setup w @ [Guarded (Create_bucket (bucket_name w) (location w)) bucket_exists_message] @
     plan_train w @ request_plan (xgb_predictor w) (file_rows (test_sample w))) @
     [Do (Delete_endpoint (attached_endpoint w (endpoint_name w)))]"
  by (simp add: plan_def)

lemma last_complete:
  "fst (run w) = Inr () \<Longrightarrow> last (snd (run w)) = Called (Delete_endpoint (attached_endpoint w (endpoint_name w)))"
  using run_complete[of w] by (simp only: plan_snoc trace_snoc_Do last_snoc)

lemma strftime_stamp:
  "strftime ''%Y-%m-%d-%H-%M-%S'' t =
     decimal (tm_year t) @ ''-'' @ two_digits (tm_mon t) @ ''-'' @ two_digits (tm_mday t) @ ''-'' @
     two_digits (tm_hour t) @ ''-'' @ two_digits (tm_min t) @ ''-'' @ two_digits (tm_sec t)"
  by (simp add: strftime.simps directive_def)

lemma stage_skeleton:
  "List.map_filter stage_of (skeleton (plan w)) =
     [Inspect, Upload, Upload, Configure, Train Estimator, Train XGBoost, Deployment] @
     replicate (length (file_rows (test_sample w))) Request_row @ [Teardown]"
  by (simp add: plan_views xgb_def framework_xgb_def xgb_estimator_def framework_estimator_def
      map_replicate_const comp_def)

lemma quiet_rows: "file_rows (test_sample quiet_world) = [''1,2'' @ [LF], ''3,4'' @ [LF]]"
  by (simp add: quiet_world_def file_rows_def LF_def CR_def)

lemma quiet_endpoint_name: "endpoint_name quiet_world = ''demo-xgboost-customer-churn-2020-05-07-09-03-01''"
  by (simp add: endpoint_name_def strftime_stamp quiet_world_def two_digits_def decimal.simps)

section \<open>Text rows, answered requests and the guarded call\<close>

text \<open>
  The rows of a text are its pieces between line feeds, none holding a carriage return;
  the plan is tidy and has one guarded step, the bucket creation, followed by the upload
  of the training split.
\<close>

lemma answered_other_call: "\<not> is_Predict c \<Longrightarrow> answered w pre (Called c # evs) = answered w (pre @ [Called c]) evs"
  by (cases c) simp_all

lemma answered_output: "\<not> is_Called ev \<Longrightarrow> answered w pre (ev # evs) = answered w (pre @ [ev]) evs"
  by (cases ev) simp_all

lemma trace_answered: "tidy ss \<Longrightarrow> answered w lg (trace w lg ss)"
  by (induction w lg ss rule: trace.induct)
     (auto simp: answered_other_call answered_output split: option.splits)

lemma tidy_append: "tidy (ss @ ts) = (tidy ss \<and> tidy ts)"
  by (induction ss rule: tidy.induct) simp_all

lemma tidy_request_plan: "tidy (request_plan p rows)"
  by (induction rows) (simp_all add: request_plan_def)

lemma tidy_plan: "tidy (plan w)"
  by (simp add: plan_def plan_setup_def plan_train_def tidy_append tidy_request_plan)

lemma dropWhile_none: "(\<forall>x \<in> set xs. \<not> P x) \<Longrightarrow> dropWhile P xs = xs"
  by (cases xs) auto

lemma dropWhile_rev_body: "LF \<notin> set body \<Longrightarrow> dropWhile (\<lambda>c. c = LF) (rev body) = rev body"
  by (rule dropWhile_none) auto

lemma rstrip_newline_body: "LF \<notin> set body \<Longrightarrow> rstrip_newline body = body"
  by (simp add: rstrip_newline_def dropWhile_rev_body)

lemma rstrip_newline_line: "LF \<notin> set body \<Longrightarrow> rstrip_newline (body @ [LF]) = body"
  by (simp add: rstrip_newline_def dropWhile_rev_body)

lemma universal_newlines_no_CR: "CR \<notin> set (universal_newlines s)"
  by (induction s rule: universal_newlines.induct) (auto simp: LF_def CR_def)

lemma concat_split_lines: "concat (split_lines s) = s"
  by (induction s) (auto split: list.splits)

lemma split_lines_row:
  "row \<in> set (split_lines s) \<Longrightarrow> \<exists>body. LF \<notin> set body \<and> (row = body @ [LF] \<or> row = body)"
proof (induction s arbitrary: row)
  case Nil
  then show ?case by simp
next
  case (Cons c s)
  show ?case
  proof (cases "c = LF")
    case True
    with Cons.prems have "row = [] @ [LF] \<or> row \<in> set (split_lines s)" by auto
    then show ?thesis using Cons.IH by (metis empty_iff list.set(1))
  next
    case False
    show ?thesis
    proof (cases "split_lines s")
      case Nil
      with False Cons.prems have "row = [c]" by simp
      with False have "LF \<notin> set [c] \<and> row = [c]" by simp
      then show ?thesis by blast
    next
      case (Cons l ls)
      with False Cons.prems have "row = c # l \<or> row \<in> set ls" by auto
      then show ?thesis
      proof
        assume r: "row = c # l"
        from Cons have "l \<in> set (split_lines s)" by simp
        from Cons.IH[OF this] obtain body where "LF \<notin> set body" "l = body @ [LF] \<or> l = body" by blast
        with r False have "LF \<notin> set (c # body) \<and> (row = (c # body) @ [LF] \<or> row = c # body)" by auto
        then show ?thesis by blast
      next
        assume "row \<in> set ls"
        with Cons have "row \<in> set (split_lines s)" by simp
        from Cons.IH[OF this] show ?thesis .
      qed
    qed
  qed
qed

lemma file_row_payload:
  assumes "row \<in> set (file_rows s)"
  shows "(row = rstrip_newline row @ [LF] \<or> row = rstrip_newline row) \<and>
         LF \<notin> set (rstrip_newline row) \<and> CR \<notin> set (rstrip_newline row)"
proof -
  from assms have r: "row \<in> set (split_lines (universal_newlines s))" by (simp add: file_rows_def)
  from split_lines_row[OF r] obtain body where b: "LF \<notin> set body" "row = body @ [LF] \<or> row = body" by blast
  then have p: "rstrip_newline row = body"
    using rstrip_newline_body rstrip_newline_line by auto
  have "set row \<subseteq> set (universal_newlines s)"
    using r concat_split_lines[of "universal_newlines s"] by (metis UN_I set_concat subsetI)
  then have "CR \<notin> set row" using universal_newlines_no_CR by blast
  then have "CR \<notin> set body" using b by auto
  with b p show ?thesis by auto
qed

lemma mixed_world_completes: "fst (run mixed_world) = Inr ()"
  by (rule no_raise_completes[of mixed_world "plan mixed_world" "[]", folded run_exec])
     (simp add: quiet_world_def mixed_world_def)

lemma crlf_world_completes: "fst (run crlf_world) = Inr ()"
  by (rule no_raise_completes[of crlf_world "plan crlf_world" "[]", folded run_exec])
     (simp add: quiet_world_def crlf_world_def)

lemma mixed_rows: "file_rows (test_sample mixed_world) = [''1,2'' @ [LF], ''3,4'' @ [LF], ''5,6'' @ [LF], ''7,8'']"
  by (simp add: mixed_world_def quiet_world_def file_rows_def LF_def CR_def)

lemma split_unique:
  "xs @ y # ys = xs' @ y' # ys' \<Longrightarrow> P y' \<Longrightarrow> \<forall>x \<in> set xs. \<not> P x \<Longrightarrow> \<forall>x \<in> set ys. \<not> P x \<Longrightarrow>
   xs = xs' \<and> y = y' \<and> ys = ys'"
proof (induction xs arbitrary: xs')
  case Nil
  then show ?case by (cases xs') auto
next
  case (Cons x xs)
  then show ?case by (cases xs') auto
qed

lemma request_plan_unguarded: "s \<in> set (request_plan p rows) \<Longrightarrow> \<not> is_Guarded s"
  by (auto simp: request_plan_def split: if_splits)

lemma request_plan_Do: "Do c \<in> set (request_plan p rows) \<Longrightarrow> c = Next_line ''data/test_sample.csv''"
  by (auto simp: request_plan_def split: if_splits)

lemma guard_unique:
  assumes "plan w = ss1 @ Guarded c msg # ss2"
  shows "c = Create_bucket (bucket_name w) (location w) \<and> msg = bucket_exists_message \<and>
         ss2 = plan_train w @ request_plan (xgb_predictor w) (file_rows (test_sample w)) @
               [Do (Delete_endpoint (attached_endpoint w (endpoint_name w)))]"
proof -
  let ?tail = "plan_train w @ request_plan (xgb_predictor w) (file_rows (test_sample w)) @
               [Do (Delete_endpoint (attached_endpoint w (endpoint_name w)))]"
  have eq: "plan_setup w @ Guarded (Create_bucket (bucket_name w) (location w)) bucket_exists_message # ?tail =
      ss1 @ Guarded c msg # ss2"
    using assms by (simp add: plan_def)
  have a: "\<forall>s \<in> set (plan_setup w). \<not> is_Guarded s"
    by (simp add: plan_setup_def)
  have b: "\<forall>s \<in> set ?tail. \<not> is_Guarded s"
    using request_plan_unguarded by (auto simp: plan_train_def)
  from split_unique[of _ _ _ _ _ _ is_Guarded, OF eq _ a b] show ?thesis by simp
qed

lemma uncaught_plan:
  assumes "uncaught (plan w) c e"
  shows "\<not> ((\<exists>b l. c = Create_bucket b l) \<and> is_Exception e)"
proof
  assume h: "(\<exists>b l. c = Create_bucket b l) \<and> is_Exception e"
  then obtain b l where c: "c = Create_bucket b l" and e: "is_Exception e" by blast
  from assms e have "Do c \<in> set (plan w) \<or> (\<exists>p x. c = Predict p x)"
    by (auto simp: uncaught_def)
  with c have "Do (Create_bucket b l) \<in> set (plan w)" by auto
  then show False
    using request_plan_Do by (auto simp: plan_def plan_setup_def plan_train_def)
qed

lemma exec_Do_starts: "\<exists>evs. snd (exec w (Do c # ss) lg) = lg @ Called c # evs"
proof (cases "raises w lg c")
  case None
  obtain evs where "snd (exec w ss (lg @ [Called c])) = (lg @ [Called c]) @ evs"
    using exec_extends by blast
  with None show ?thesis by (simp add: exec_run del: exec.simps)
next
  case (Some e)
  then show ?thesis by (simp add: exec_run del: exec.simps)
qed

lemma exec_two_calls_start:
  "\<exists>rest. snd (exec w (Do u1 # Out p1 # Do u2 # ss) lg) = lg @ Called u1 # rest \<and>
     (raises w lg u1 = None \<longrightarrow> (\<exists>rest'. rest = p1 # Called u2 # rest'))"
proof (cases "raises w lg u1")
  case None
  obtain evs where "snd (exec w (Do u2 # ss) (lg @ [Called u1, p1])) = (lg @ [Called u1, p1]) @ Called u2 # evs"
    using exec_Do_starts by blast
  with None show ?thesis by (simp add: exec_run del: exec.simps)
next
  case (Some e)
  then show ?thesis by (simp add: exec_run del: exec.simps)
qed

lemma failing_run:
  "\<exists>rest. run failing_world =
     (Inl (Exception ''UnexpectedStatusException''),
      [Called Boto3_Session, Called (Client ''sagemaker''), Called Get_execution_role,
       Called (Read_csv ''./data/training-dataset-with-header.csv''),
       Called (Set_option ''display.max_columns'' 500), Called (Set_option ''display.max_rows'' 10),
       Display ''data'', Called (Get_caller_identity ''eu-west-1'')] @
      Called (Create_bucket ''sagemaker-eu-west-1-123456789012'' (Some ''eu-west-1'')) #
      Print bucket_exists_message #
      Called (S3_upload ''data/train.csv'' ''s3://sagemaker-eu-west-1-123456789012/xgboost-churn/train'') # rest)"
  by (simp add: run_exec plan_def plan_setup_def plan_train_def exec_run failing_world_def quiet_world_def
      bucket_name_def location_def train_destination_def validation_destination_def
      xgb_def framework_xgb_def xgb_estimator_def framework_estimator_def
      del: exec.simps)

lemma broken_file_run:
  "\<exists>lg. run broken_file_world = (Inl (Exception ''UnicodeDecodeError''), lg) \<and>
     last lg = Called (Next_line ''data/test_sample.csv'') \<and>
     last (butlast lg) = Sleep (1 / 2) \<and>
     List.map_filter payload_of lg = [''1,2'']"
  by (simp add: run_exec plan_def plan_setup_def plan_train_def request_plan_def exec_run
      broken_file_world_def quiet_world_def file_rows_def rstrip_newline_def LF_def CR_def
      del: exec.simps)

section \<open>The claims of the specification\<close>

text \<open>
  C1. The only handler of the notebook is the one around bucket creation. Whenever a call
  in the log of a run raised, then either it is the bucket creation raising an
  \<^verbatim>\<open>Exception\<close>, and the log goes on with the printed message and the upload of the
  training split and, unless that upload raises, with the printed URL and the upload of
  the validation split; or it is the last event of the log and its exception is the result
  of the run. Conversely a run that ends in an exception ends with the call that raised
  it; this may be a read of the test sample in the middle of the loop, after requests have
  been sent.
\<close>

theorem only_bucket_creation_is_guarded:
  "(\<forall>pre c post e. snd (run w) = pre @ Called c # post \<and> raises w pre c = Some e \<longrightarrow>
      (if (\<exists>b l. c = Create_bucket b l) \<and> is_Exception e
       then \<exists>rest.
          post = Print bucket_exists_message #
                 Called (S3_upload ''data/train.csv'' (''s3://'' @ bucket_name w @ ''/xgboost-churn/train'')) # rest \<and>
          (raises w (pre @ [Called c, Print bucket_exists_message])
             (S3_upload ''data/train.csv'' (''s3://'' @ bucket_name w @ ''/xgboost-churn/train'')) = None \<longrightarrow>
           (\<exists>rest'. rest =
              Print (uploaded_uri w ''data/train.csv'' (''s3://'' @ bucket_name w @ ''/xgboost-churn/train'')) #
              Called (S3_upload ''data/validation.csv'' (''s3://'' @ bucket_name w @ ''/xgboost-churn/validation'')) #
              rest'))
       else post = [] \<and> fst (run w) = Inl e)) \<and>
   (\<forall>e. fst (run w) = Inl e \<longrightarrow> (\<exists>pre c. snd (run w) = pre @ [Called c] \<and> raises w pre c = Some e))"
proof (intro conjI allI impI)
  fix pre c post e
  assume "snd (run w) = pre @ Called c # post \<and> raises w pre c = Some e"
  then have L: "snd (exec w (plan w) []) = [] @ pre @ Called c # post" and R: "raises w ([] @ pre) c = Some e"
    by (simp_all add: run_exec)
  let ?guarded = "(\<exists>b l. c = Create_bucket b l) \<and> is_Exception e"
  let ?going_on = "\<exists>rest.
          post = Print bucket_exists_message #
                 Called (S3_upload ''data/train.csv'' (''s3://'' @ bucket_name w @ ''/xgboost-churn/train'')) # rest \<and>
          (raises w (pre @ [Called c, Print bucket_exists_message])
             (S3_upload ''data/train.csv'' (''s3://'' @ bucket_name w @ ''/xgboost-churn/train'')) = None \<longrightarrow>
           (\<exists>rest'. rest =
              Print (uploaded_uri w ''data/train.csv'' (''s3://'' @ bucket_name w @ ''/xgboost-churn/train'')) #
              Called (S3_upload ''data/validation.csv'' (''s3://'' @ bucket_name w @ ''/xgboost-churn/validation'')) #
              rest'))"
  from exec_raise[OF tidy_plan L R]
  consider (ends) "post = []" "fst (run w) = Inl e" "uncaught (plan w) c e"
    | (goes_on) "caught w (plan w) pre c e post"
    by (auto simp: run_exec)
  then show "if ?guarded then ?going_on else post = [] \<and> fst (run w) = Inl e"
  proof cases
    case ends
    from uncaught_plan[OF ends(3)] have "\<not> ?guarded" .
    with ends show ?thesis by simp
  next
    case goes_on
    then obtain ss1 msg ss2 where e: "is_Exception e" and p: "plan w = ss1 @ Guarded c msg # ss2"
      and l: "pre @ Called c # post = snd (exec w ss2 (pre @ [Called c, Print msg]))"
      unfolding caught_def by blast
    let ?u1 = "S3_upload ''data/train.csv'' (train_destination w)"
    let ?p1 = "Print (uploaded_uri w ''data/train.csv'' (train_destination w))"
    let ?u2 = "S3_upload ''data/validation.csv'' (validation_destination w)"
    from guard_unique[OF p] have c: "c = Create_bucket (bucket_name w) (location w)"
      and m: "msg = bucket_exists_message"
      and s: "ss2 = Do ?u1 # Out ?p1 # Do ?u2 #
                drop 3 (plan_train w) @ request_plan (xgb_predictor w) (file_rows (test_sample w)) @
                [Do (Delete_endpoint (attached_endpoint w (endpoint_name w)))]"
      by (simp_all add: plan_train_def)
    obtain rest where rest: "snd (exec w ss2 (pre @ [Called c, Print msg])) =
        (pre @ [Called c, Print msg]) @ Called ?u1 # rest"
      "raises w (pre @ [Called c, Print msg]) ?u1 = None \<longrightarrow> (\<exists>rest'. rest = ?p1 # Called ?u2 # rest')"
      using exec_two_calls_start[of w ?u1 ?p1 ?u2 _ "pre @ [Called c, Print msg]"] s by metis
    with l m have "post = Print bucket_exists_message # Called ?u1 # rest" by simp
    with rest(2) m have ?going_on
      by (simp add: train_destination_def validation_destination_def)
    with c e show ?thesis by simp
  qed
next
  fix e
  assume "fst (run w) = Inl e"
  then show "\<exists>pre c. snd (run w) = pre @ [Called c] \<and> raises w pre c = Some e"
    using exec_Inl[of w "plan w" "[]" e] by (simp add: run_exec)
qed

theorem only_bucket_creation_is_guarded_witness:
  "fst (run failing_world) = Inl (Exception ''UnexpectedStatusException'') \<and>
   raises failing_world
     [Called Boto3_Session, Called (Client ''sagemaker''), Called Get_execution_role,
      Called (Read_csv ''./data/training-dataset-with-header.csv''),
      Called (Set_option ''display.max_columns'' 500), Called (Set_option ''display.max_rows'' 10),
      Display ''data'', Called (Get_caller_identity ''eu-west-1'')]
     (Create_bucket ''sagemaker-eu-west-1-123456789012'' (Some ''eu-west-1'')) = Some (Exception ''ClientError'') \<and>
   (\<exists>post. snd (run failing_world) =
      [Called Boto3_Session, Called (Client ''sagemaker''), Called Get_execution_role,
       Called (Read_csv ''./data/training-dataset-with-header.csv''),
       Called (Set_option ''display.max_columns'' 500), Called (Set_option ''display.max_rows'' 10),
       Display ''data'', Called (Get_caller_identity ''eu-west-1'')] @
      Called (Create_bucket ''sagemaker-eu-west-1-123456789012'' (Some ''eu-west-1'')) # post \<and>
      (\<exists>rest. post =
         Print bucket_exists_message #
         Called (S3_upload ''data/train.csv'' ''s3://sagemaker-eu-west-1-123456789012/xgboost-churn/train'') #
         Print ''s3://sagemaker-eu-west-1-123456789012/xgboost-churn/train/data/train.csv'' #
         Called (S3_upload ''data/validation.csv'' ''s3://sagemaker-eu-west-1-123456789012/xgboost-churn/validation'') #
         rest)) \<and>
   (\<exists>pre c. snd (run failing_world) = pre @ [Called c] \<and>
      raises failing_world pre c = Some (Exception ''UnexpectedStatusException'')) \<and>
   fst (run broken_file_world) = Inl (Exception ''UnicodeDecodeError'') \<and>
   List.map_filter payload_of (snd (run broken_file_world)) = [''1,2''] \<and>
   last (butlast (snd (run broken_file_world))) = Sleep (1 / 2) \<and>
   (\<exists>pre. snd (run broken_file_world) = pre @ [Called (Next_line ''data/test_sample.csv'')] \<and>
      raises broken_file_world pre (Next_line ''data/test_sample.csv'') = Some (Exception ''UnicodeDecodeError''))"
proof -
  let ?pre = "[Called Boto3_Session, Called (Client ''sagemaker''), Called Get_execution_role,
       Called (Read_csv ''./data/training-dataset-with-header.csv''),
       Called (Set_option ''display.max_columns'' 500), Called (Set_option ''display.max_rows'' 10),
       Display ''data'', Called (Get_caller_identity ''eu-west-1'')]"
  let ?cb = "Create_bucket ''sagemaker-eu-west-1-123456789012'' (Some ''eu-west-1'')"
  let ?u1 = "S3_upload ''data/train.csv'' ''s3://sagemaker-eu-west-1-123456789012/xgboost-churn/train''"
  from failing_run obtain post where r: "fst (run failing_world) = Inl (Exception ''UnexpectedStatusException'')"
    and l: "snd (run failing_world) = ?pre @ Called ?cb # post"
    by auto
  have h: "raises failing_world ?pre ?cb = Some (Exception ''ClientError'')"
    by (simp add: failing_world_def)
  have u: "raises failing_world (?pre @ [Called ?cb, Print bucket_exists_message]) ?u1 = None"
    by (simp add: failing_world_def)
  have b: "bucket_name failing_world = ''sagemaker-eu-west-1-123456789012''"
    "uploaded_uri failing_world = (\<lambda>path dest. dest @ ''/'' @ path)"
    by (simp_all add: bucket_name_def failing_world_def quiet_world_def)
  note claim = only_bucket_creation_is_guarded[of failing_world]
  have g: "(\<exists>b l. ?cb = Create_bucket b l) \<and> is_Exception (Exception ''ClientError'')"
    by simp
  note at_bucket = claim[THEN conjunct1, rule_format, of ?pre ?cb post "Exception ''ClientError''",
      OF conjI[OF l h]]
  have "\<exists>rest.
      post = Print bucket_exists_message #
             Called (S3_upload ''data/train.csv'' (''s3://'' @ bucket_name failing_world @ ''/xgboost-churn/train'')) # rest \<and>
      (raises failing_world (?pre @ [Called ?cb, Print bucket_exists_message])
         (S3_upload ''data/train.csv'' (''s3://'' @ bucket_name failing_world @ ''/xgboost-churn/train'')) = None \<longrightarrow>
       (\<exists>rest'. rest =
          Print (uploaded_uri failing_world ''data/train.csv'' (''s3://'' @ bucket_name failing_world @ ''/xgboost-churn/train'')) #
          Called (S3_upload ''data/validation.csv'' (''s3://'' @ bucket_name failing_world @ ''/xgboost-churn/validation'')) #
          rest'))"
    using at_bucket unfolding if_P[OF g] .
  with u have 1: "\<exists>rest. post =
         Print bucket_exists_message # Called ?u1 #
         Print ''s3://sagemaker-eu-west-1-123456789012/xgboost-churn/train/data/train.csv'' #
         Called (S3_upload ''data/validation.csv'' ''s3://sagemaker-eu-west-1-123456789012/xgboost-churn/validation'') #
         rest"
    by (auto simp: b)
  from claim r have 2: "\<exists>pre c. snd (run failing_world) = pre @ [Called c] \<and>
      raises failing_world pre c = Some (Exception ''UnexpectedStatusException'')"
    by blast
  from broken_file_run obtain lg where
    f: "fst (run broken_file_world) = Inl (Exception ''UnicodeDecodeError'')"
    and g: "snd (run broken_file_world) = lg"
    and e: "last lg = Called (Next_line ''data/test_sample.csv'')" "last (butlast lg) = Sleep (1 / 2)"
      "List.map_filter payload_of lg = [''1,2'']"
    by auto
  from only_bucket_creation_is_guarded[of broken_file_world] f
  obtain pre c where 3: "snd (run broken_file_world) = pre @ [Called c]"
    "raises broken_file_world pre c = Some (Exception ''UnicodeDecodeError'')"
    by blast
  with g e(1) have "c = Next_line ''data/test_sample.csv''" by auto
  with 3 have 4: "\<exists>pre. snd (run broken_file_world) = pre @ [Called (Next_line ''data/test_sample.csv'')] \<and>
      raises broken_file_world pre (Next_line ''data/test_sample.csv'') = Some (Exception ''UnicodeDecodeError'')"
    by blast
  from g e have 5: "List.map_filter payload_of (snd (run broken_file_world)) = [''1,2'']"
    "last (butlast (snd (run broken_file_world))) = Sleep (1 / 2)"
    by simp_all
  from r h l 1 2 4 5 f show ?thesis by blast
qed

text \<open>
  C2. On every run that completes, the steps the specification lists occur in exactly
  this order: the local CSV read, the two uploads, the hyperparameter dictionary, the
  training job of the generic estimator and then that of the framework estimator, the
  deployment, one request per row of the test sample, and the teardown. On every run,
  complete or not, the steps issued so far are an initial part of that sequence, so no
  step is started before the previous one has been issued.
\<close>

theorem stages_in_order:
  "(\<exists>j. List.map_filter stage_of (snd (run w)) =
      take j ([Inspect, Upload, Upload, Configure, Train Estimator, Train XGBoost, Deployment] @
        replicate (length (file_rows (test_sample w))) Request_row @ [Teardown])) \<and>
   (fst (run w) = Inr () \<longrightarrow>
      List.map_filter stage_of (snd (run w)) =
        [Inspect, Upload, Upload, Configure, Train Estimator, Train XGBoost, Deployment] @
        replicate (length (file_rows (test_sample w))) Request_row @ [Teardown])"
  using view_any[of stage_of w] view_complete[of stage_of w] stage_skeleton[of w] by simp

theorem stages_in_order_witness:
  "fst (run quiet_world) = Inr () \<and>
   List.map_filter stage_of (snd (run quiet_world)) =
     [Inspect, Upload, Upload, Configure, Train Estimator, Train XGBoost, Deployment,
      Request_row, Request_row, Teardown]"
  using stages_in_order[of quiet_world] quiet_world_completes
  by (simp add: quiet_rows)

text \<open>
  C3, as amended. The test sample is read in text mode, where a line ends at a line feed,
  at a carriage return followed by a line feed, or at a lone carriage return, and each of
  these endings is read as one line feed. On a run that completes, one request is sent
  for every such row, in file order; its payload is the row without its line feed, so no
  payload contains a line feed or a carriage return, and the rows together are the text
  as read. The number of requests is the number of rows, and every request is followed at
  once by the print of its response.
\<close>

theorem one_request_per_text_row:
  "fst (run w) = Inr () \<Longrightarrow>
     List.map_filter payload_of (snd (run w)) = map rstrip_newline (file_rows (test_sample w)) \<and>
     length (List.map_filter payload_of (snd (run w))) = length (file_rows (test_sample w)) \<and>
     answered w [] (snd (run w)) \<and>
     concat (file_rows (test_sample w)) = universal_newlines (test_sample w) \<and>
     (\<forall>row \<in> set (file_rows (test_sample w)).
        (row = rstrip_newline row @ [LF] \<or> row = rstrip_newline row) \<and>
        LF \<notin> set (rstrip_newline row) \<and> CR \<notin> set (rstrip_newline row))"
proof -
  assume c: "fst (run w) = Inr ()"
  have sk: "List.map_filter payload_of (skeleton (plan w)) = map rstrip_newline (file_rows (test_sample w))"
    by (simp add: plan_views comp_def)
  have 1: "List.map_filter payload_of (snd (run w)) = map rstrip_newline (file_rows (test_sample w))"
    using view_complete[of payload_of w, OF _ c] sk by simp
  have 2: "answered w [] (snd (run w))"
    using run_complete[OF c] trace_answered[OF tidy_plan, of w "[]" w] by simp
  have 3: "concat (file_rows (test_sample w)) = universal_newlines (test_sample w)"
    by (simp add: file_rows_def concat_split_lines)
  show ?thesis using 1 2 3 file_row_payload by simp
qed

theorem one_request_per_text_row_witness:
  "fst (run mixed_world) = Inr () \<and>
   List.map_filter payload_of (snd (run mixed_world)) = [''1,2'', ''3,4'', ''5,6'', ''7,8''] \<and>
   answered mixed_world [] (snd (run mixed_world))"
  using one_request_per_text_row[OF mixed_world_completes] mixed_world_completes
  by (simp add: mixed_rows rstrip_newline_def LF_def)

text \<open>
  C3 as the specification states it fails on a file whose one line ends in a carriage
  return and a line feed: the claim keeps the carriage return in the payload, the run
  sends the payload without it.
\<close>

theorem carriage_return_counterexample:
  "fst (run crlf_world) = Inr () \<and>
   test_sample crlf_world = ''1,2'' @ [CR, LF] \<and>
   List.map_filter payload_of (snd (run crlf_world)) = [''1,2''] \<and>
   claimed_payloads (test_sample crlf_world) = [''1,2'' @ [CR]] \<and>
   List.map_filter payload_of (snd (run crlf_world)) \<noteq> claimed_payloads (test_sample crlf_world)"
proof -
  have sk: "List.map_filter payload_of (skeleton (plan crlf_world)) =
      map rstrip_newline (file_rows (test_sample crlf_world))"
    by (simp add: plan_views comp_def)
  have rows: "file_rows (test_sample crlf_world) = [''1,2'' @ [LF]]"
    by (simp add: crlf_world_def quiet_world_def file_rows_def LF_def CR_def)
  have 1: "List.map_filter payload_of (snd (run crlf_world)) = [''1,2'']"
    using view_complete[of payload_of crlf_world, OF _ crlf_world_completes] sk
    by (simp add: rows rstrip_newline_def LF_def)
  have 2: "claimed_payloads (test_sample crlf_world) = [''1,2'' @ [CR]]"
    by (simp add: claimed_payloads_def crlf_world_def quiet_world_def rstrip_newline_def LF_def CR_def)
  have 3: "test_sample crlf_world = ''1,2'' @ [CR, LF]"
    by (simp add: crlf_world_def quiet_world_def)
  show ?thesis using 1 2 3 crlf_world_completes by (simp add: CR_def)
qed

text \<open>
  C4. The calls that involve an estimator are, in order: the generic estimator is built
  and fitted, the framework estimator is built and fitted, and the generic estimator is
  deployed. So the framework estimator appears in no call after its \<^verbatim>\<open>fit\<close>, and every
  request goes to the predictor of the one deployment, that of the generic estimator.
\<close>

theorem only_algorithm_mode_model_deployed:
  "(\<exists>j. List.map_filter estimator_step (snd (run w)) =
      take j [New_estimator (xgb w), Fit (xgb w) (channels w),
              New_estimator (framework_xgb w), Fit (framework_xgb w) (channels w),
              Deploy (xgb w) 1 ''ml.m5.large'' (endpoint_name w)]) \<and>
   (fst (run w) = Inr () \<longrightarrow>
      List.map_filter estimator_step (snd (run w)) =
        [New_estimator (xgb w), Fit (xgb w) (channels w),
         New_estimator (framework_xgb w), Fit (framework_xgb w) (channels w),
         Deploy (xgb w) 1 ''ml.m5.large'' (endpoint_name w)] \<and>
      List.map_filter predictor_of (snd (run w)) =
        replicate (length (file_rows (test_sample w))) (xgb_predictor w)) \<and>
   cls (xgb w) = Estimator \<and> entry_point (xgb w) = None \<and>
   cls (framework_xgb w) = XGBoost \<and> entry_point (framework_xgb w) = Some ''xgboost_customer_churn.py'' \<and>
   endpoint (xgb_predictor w) = attached_endpoint w (endpoint_name w)"
proof -
  have sk: "List.map_filter estimator_step (skeleton (plan w)) =
      [New_estimator (xgb w), Fit (xgb w) (channels w),
       New_estimator (framework_xgb w), Fit (framework_xgb w) (channels w),
       Deploy (xgb w) 1 ''ml.m5.large'' (endpoint_name w)]"
    by (simp add: plan_views)
  have sp: "List.map_filter predictor_of (skeleton (plan w)) =
      replicate (length (file_rows (test_sample w))) (xgb_predictor w)"
    by (simp add: plan_views map_replicate_const comp_def)
  have "cls (xgb w) = Estimator \<and> entry_point (xgb w) = None \<and>
   cls (framework_xgb w) = XGBoost \<and> entry_point (framework_xgb w) = Some ''xgboost_customer_churn.py'' \<and>
   endpoint (xgb_predictor w) = attached_endpoint w (endpoint_name w)"
    by (simp add: xgb_def framework_xgb_def xgb_estimator_def framework_estimator_def
        xgb_predictor_def entry_point_script_def)
  then show ?thesis
    using view_any[of estimator_step w] view_complete[of estimator_step w]
      view_complete[of predictor_of w] sk sp by simp
qed

theorem only_algorithm_mode_model_deployed_witness:
  "fst (run quiet_world) = Inr () \<and>
   map (\<lambda>c. case c of New_estimator e \<Rightarrow> (''new'', cls e) | Fit e ch \<Rightarrow> (''fit'', cls e)
                     | Deploy e n t name \<Rightarrow> (''deploy'', cls e) | _ \<Rightarrow> (''other'', Estimator))
     (List.map_filter estimator_step (snd (run quiet_world))) =
     [(''new'', Estimator), (''fit'', Estimator), (''new'', XGBoost), (''fit'', XGBoost), (''deploy'', Estimator)]"
  using only_algorithm_mode_model_deployed[of quiet_world] quiet_world_completes
  by simp

text \<open>
  C5. Restricted to requests and sleeps, the log of a complete run is, row by row, the
  request for that row followed by a sleep of half a second: between any two successive
  requests there is exactly one sleep, every sleep lasts 1/2 second, and the notebook
  sleeps nowhere else. On any run the requests and sleeps issued are an initial part of
  that sequence.
\<close>

theorem half_second_between_requests:
  "(\<exists>j. List.map_filter request_or_sleep (snd (run w)) =
      take j (concat (map (\<lambda>row. [Inl (rstrip_newline row), Inr (1 / 2)]) (file_rows (test_sample w))))) \<and>
   (fst (run w) = Inr () \<longrightarrow>
      List.map_filter request_or_sleep (snd (run w)) =
        concat (map (\<lambda>row. [Inl (rstrip_newline row), Inr (1 / 2)]) (file_rows (test_sample w))))"
proof -
  have sk: "List.map_filter request_or_sleep (skeleton (plan w)) =
      concat (map (\<lambda>row. [Inl (rstrip_newline row), Inr (1 / 2)]) (file_rows (test_sample w)))"
    by (simp add: plan_views comp_def)
  show ?thesis
    using view_any[of request_or_sleep w] view_complete[of request_or_sleep w] sk by simp
qed

theorem half_second_between_requests_witness:
  "fst (run quiet_world) = Inr () \<and>
   List.map_filter request_or_sleep (snd (run quiet_world)) = [Inl ''1,2'', Inr (1 / 2), Inl ''3,4'', Inr (1 / 2)]"
  using half_second_between_requests[of quiet_world] quiet_world_completes
  by (simp add: quiet_rows rstrip_newline_def LF_def)

text \<open>
  C6. On a run that completes there are two training jobs, the first of an
  \<^verbatim>\<open>Estimator\<close> and the second of an \<^verbatim>\<open>XGBoost\<close> estimator. Each carries the
  hyperparameter dictionary of cell 7 and exactly the two channels \<^verbatim>\<open>train\<close> and
  \<^verbatim>\<open>validation\<close>, both of content type \<^verbatim>\<open>csv\<close>. The train channel is the destination of
  the first upload; the validation channel is the destination of the second upload
  written with a closing slash.
\<close>

theorem training_jobs_hyperparameters_and_channels:
  "fst (run w) = Inr () \<Longrightarrow>
   List.map_filter fit_of (snd (run w)) =
     [(Estimator, hyperparams,
       [(''train'', S3_input (''s3://'' @ bucket_name w @ ''/xgboost-churn/train'') ''csv''),
        (''validation'', S3_input ((''s3://'' @ bucket_name w @ ''/xgboost-churn/validation'') @ ''/'') ''csv'')]),
      (XGBoost, hyperparams,
       [(''train'', S3_input (''s3://'' @ bucket_name w @ ''/xgboost-churn/train'') ''csv''),
        (''validation'', S3_input ((''s3://'' @ bucket_name w @ ''/xgboost-churn/validation'') @ ''/'') ''csv'')])] \<and>
   map snd (List.map_filter upload_of (snd (run w))) =
     [''s3://'' @ bucket_name w @ ''/xgboost-churn/train'',
      ''s3://'' @ bucket_name w @ ''/xgboost-churn/validation'']"
proof -
  assume c: "fst (run w) = Inr ()"
  have "List.map_filter fit_of (skeleton (plan w)) =
     [(Estimator, hyperparams,
       [(''train'', S3_input (''s3://'' @ bucket_name w @ ''/xgboost-churn/train'') ''csv''),
        (''validation'', S3_input ((''s3://'' @ bucket_name w @ ''/xgboost-churn/validation'') @ ''/'') ''csv'')]),
      (XGBoost, hyperparams,
       [(''train'', S3_input (''s3://'' @ bucket_name w @ ''/xgboost-churn/train'') ''csv''),
        (''validation'', S3_input ((''s3://'' @ bucket_name w @ ''/xgboost-churn/validation'') @ ''/'') ''csv'')])]"
    by (simp add: plan_views xgb_def framework_xgb_def xgb_estimator_def framework_estimator_def channels_def)
  moreover have "List.map_filter upload_of (skeleton (plan w)) =
      [(''data/train.csv'', ''s3://'' @ bucket_name w @ ''/xgboost-churn/train''),
       (''data/validation.csv'', ''s3://'' @ bucket_name w @ ''/xgboost-churn/validation'')]"
    by (simp add: plan_views train_destination_def validation_destination_def)
  ultimately show ?thesis
    using view_complete[of fit_of w, OF _ c] view_complete[of upload_of w, OF _ c] by simp
qed

theorem training_jobs_hyperparameters_and_channels_witness:
  "fst (run quiet_world) = Inr () \<and>
   List.map_filter fit_of (snd (run quiet_world)) =
     [(Estimator, hyperparams,
       [(''train'', S3_input ''s3://sagemaker-eu-west-1-123456789012/xgboost-churn/train'' ''csv''),
        (''validation'', S3_input ''s3://sagemaker-eu-west-1-123456789012/xgboost-churn/validation/'' ''csv'')]),
      (XGBoost, hyperparams,
       [(''train'', S3_input ''s3://sagemaker-eu-west-1-123456789012/xgboost-churn/train'' ''csv''),
        (''validation'', S3_input ''s3://sagemaker-eu-west-1-123456789012/xgboost-churn/validation/'' ''csv'')])]"
  using training_jobs_hyperparameters_and_channels[OF quiet_world_completes] quiet_world_completes
  by (simp add: quiet_world_def bucket_name_def)

text \<open>
  C7, as amended. The notebook itself makes exactly two upload calls, for the files
  \<^verbatim>\<open>data/train.csv\<close> and \<^verbatim>\<open>data/validation.csv\<close>, to the two different paths
  \<^verbatim>\<open>xgboost-churn/train\<close> and \<^verbatim>\<open>xgboost-churn/validation\<close> of the one bucket, and no run
  makes another upload call: the upload calls of any run are an initial part of these
  two. They are not the only files a run sends to S3: the training job of the framework
  estimator stages the entry-point script as \<^verbatim>\<open>sourcedir.tar.gz\<close>, so a run that completes
  sends three files, the two CSV files and that archive, in this order.
\<close>

theorem two_upload_calls_and_staged_script:
  "(\<exists>j. List.map_filter upload_of (snd (run w)) =
      take j [(''data/train.csv'', ''s3://'' @ bucket_name w @ ''/xgboost-churn/train''),
              (''data/validation.csv'', ''s3://'' @ bucket_name w @ ''/xgboost-churn/validation'')]) \<and>
   (fst (run w) = Inr () \<longrightarrow>
      List.map_filter upload_of (snd (run w)) =
        [(''data/train.csv'', ''s3://'' @ bucket_name w @ ''/xgboost-churn/train''),
         (''data/validation.csv'', ''s3://'' @ bucket_name w @ ''/xgboost-churn/validation'')] \<and>
      List.map_filter file_put (snd (run w)) =
        [''data/train.csv'', ''data/validation.csv'', ''sourcedir.tar.gz'']) \<and>
   ''s3://'' @ bucket_name w @ ''/xgboost-churn/train'' \<noteq> ''s3://'' @ bucket_name w @ ''/xgboost-churn/validation''"
proof -
  have sk: "List.map_filter upload_of (skeleton (plan w)) =
      [(''data/train.csv'', ''s3://'' @ bucket_name w @ ''/xgboost-churn/train''),
       (''data/validation.csv'', ''s3://'' @ bucket_name w @ ''/xgboost-churn/validation'')]"
    by (simp add: plan_views train_destination_def validation_destination_def comp_def)
  have sp: "List.map_filter file_put (skeleton (plan w)) =
      [''data/train.csv'', ''data/validation.csv'', ''sourcedir.tar.gz'']"
    by (simp add: plan_views comp_def xgb_def framework_xgb_def xgb_estimator_def framework_estimator_def)
  show ?thesis
    using view_any[of upload_of w] view_complete[of upload_of w] view_complete[of file_put w] sk sp
    by simp
qed

theorem two_upload_calls_and_staged_script_witness:
  "fst (run quiet_world) = Inr () \<and>
   List.map_filter upload_of (snd (run quiet_world)) =
     [(''data/train.csv'', ''s3://sagemaker-eu-west-1-123456789012/xgboost-churn/train''),
      (''data/validation.csv'', ''s3://sagemaker-eu-west-1-123456789012/xgboost-churn/validation'')] \<and>
   List.map_filter file_put (snd (run quiet_world)) =
     [''data/train.csv'', ''data/validation.csv'', ''sourcedir.tar.gz'']"
  using two_upload_calls_and_staged_script[of quiet_world] quiet_world_completes
  by (simp add: quiet_world_def bucket_name_def)

text \<open>
  C7 as the specification states it fails on the quiet world: its run sends three files
  to S3, and the third is no CSV file.
\<close>

theorem third_upload_counterexample:
  "fst (run quiet_world) = Inr () \<and>
   List.map_filter file_put (snd (run quiet_world)) =
     [''data/train.csv'', ''data/validation.csv'', ''sourcedir.tar.gz''] \<and>
   length (List.map_filter file_put (snd (run quiet_world))) \<noteq> 2"
proof -
  have "List.map_filter file_put (skeleton (plan quiet_world)) =
      [''data/train.csv'', ''data/validation.csv'', ''sourcedir.tar.gz'']"
    by (simp add: plan_views comp_def xgb_def framework_xgb_def xgb_estimator_def framework_estimator_def)
  then have "List.map_filter file_put (snd (run quiet_world)) =
      [''data/train.csv'', ''data/validation.csv'', ''sourcedir.tar.gz'']"
    using view_complete[of file_put quiet_world, OF _ quiet_world_completes] by simp
  then show ?thesis using quiet_world_completes by simp
qed

text \<open>
  C8. The endpoint name is \<^verbatim>\<open>demo-xgboost-customer-churn-\<close> followed by the UTC clock
  reading as year, month, day, hour, minute and second, joined by hyphens, the last five
  as two digits. A run that completes deploys under exactly this name and prints it in
  both messages; its requests go to, and its teardown deletes, the endpoint that the
  SDK attached to the predictor for that name.
\<close>

theorem endpoint_name_time_stamped:
  "fst (run w) = Inr () \<Longrightarrow>
   List.map_filter deployed_name (snd (run w)) = [endpoint_name w] \<and>
   endpoint_name w =
     ''demo-xgboost-customer-churn-'' @
     decimal (tm_year (gmtime w)) @ ''-'' @ two_digits (tm_mon (gmtime w)) @ ''-'' @
     two_digits (tm_mday (gmtime w)) @ ''-'' @ two_digits (tm_hour (gmtime w)) @ ''-'' @
     two_digits (tm_min (gmtime w)) @ ''-'' @ two_digits (tm_sec (gmtime w)) \<and>
   Print (''EndpointName = '' @ endpoint_name w) \<in> set (snd (run w)) \<and>
   Print (traffic_message (endpoint_name w)) \<in> set (snd (run w)) \<and>
   map endpoint (List.map_filter predictor_of (snd (run w))) =
     replicate (length (file_rows (test_sample w))) (attached_endpoint w (endpoint_name w)) \<and>
   List.map_filter deleted_name (snd (run w)) = [attached_endpoint w (endpoint_name w)]"
proof -
  assume c: "fst (run w) = Inr ()"
  have 1: "List.map_filter deployed_name (skeleton (plan w)) = [endpoint_name w]"
    by (simp add: plan_views comp_def)
  have 2: "List.map_filter predictor_of (skeleton (plan w)) =
      replicate (length (file_rows (test_sample w))) (xgb_predictor w)"
    by (simp add: plan_views map_replicate_const comp_def)
  have 3: "List.map_filter deleted_name (skeleton (plan w)) = [attached_endpoint w (endpoint_name w)]"
    by (simp add: plan_views comp_def)
  have 4: "Print (''EndpointName = '' @ endpoint_name w) \<in> set (skeleton (plan w))"
    "Print (traffic_message (endpoint_name w)) \<in> set (skeleton (plan w))"
    by (simp_all add: skeleton_plan plan_train_def)
  have 5: "set (skeleton (plan w)) \<subseteq> set (snd (run w))"
    using skeleton_in_trace[of "plan w" w "[]"] run_complete[OF c] by simp
  have 6: "endpoint (xgb_predictor w) = attached_endpoint w (endpoint_name w)"
    by (simp add: xgb_predictor_def)
  show ?thesis
    using view_complete[of deployed_name w, OF _ c] view_complete[of predictor_of w, OF _ c]
      view_complete[of deleted_name w, OF _ c] 1 2 3 4 5 6
    by (auto simp: endpoint_name_def strftime_stamp)
qed

theorem endpoint_name_time_stamped_witness:
  "fst (run quiet_world) = Inr () \<and>
   List.map_filter deployed_name (snd (run quiet_world)) = [''demo-xgboost-customer-churn-2020-05-07-09-03-01''] \<and>
   List.map_filter deleted_name (snd (run quiet_world)) = [''demo-xgboost-customer-churn-2020-05-07-09-03-01'']"
  using endpoint_name_time_stamped[OF quiet_world_completes] quiet_world_completes
  by (simp add: quiet_endpoint_name) (simp add: quiet_world_def)

text \<open>
  C9. No run deletes an endpoint other than the one attached to the predictor that
  \<^verbatim>\<open>deploy\<close> returned. A run that completes deletes it exactly once, as its last event;
  it is the endpoint of the one deployment and the one all requests were sent to.
\<close>

theorem teardown_deletes_created_endpoint:
  "set (List.map_filter deleted_name (snd (run w))) \<subseteq> {attached_endpoint w (endpoint_name w)} \<and>
   (fst (run w) = Inr () \<longrightarrow>
      last (snd (run w)) = Called (Delete_endpoint (attached_endpoint w (endpoint_name w))) \<and>
      List.map_filter deleted_name (snd (run w)) = [attached_endpoint w (endpoint_name w)] \<and>
      List.map_filter deployed_name (snd (run w)) = [endpoint_name w] \<and>
      List.map_filter predictor_of (snd (run w)) =
        replicate (length (file_rows (test_sample w))) (xgb_predictor w)) \<and>
   endpoint (xgb_predictor w) = attached_endpoint w (endpoint_name w)"
proof -
  have 1: "List.map_filter deployed_name (skeleton (plan w)) = [endpoint_name w]"
    by (simp add: plan_views comp_def)
  have 2: "List.map_filter predictor_of (skeleton (plan w)) =
      replicate (length (file_rows (test_sample w))) (xgb_predictor w)"
    by (simp add: plan_views map_replicate_const comp_def)
  have 3: "List.map_filter deleted_name (skeleton (plan w)) = [attached_endpoint w (endpoint_name w)]"
    by (simp add: plan_views comp_def)
  obtain j where "List.map_filter deleted_name (snd (run w)) = take j [attached_endpoint w (endpoint_name w)]"
    using view_any[of deleted_name w] 3 by auto
  then have "set (List.map_filter deleted_name (snd (run w))) \<subseteq> {attached_endpoint w (endpoint_name w)}"
    using set_take_subset[of j "[attached_endpoint w (endpoint_name w)]"] by simp
  moreover have "endpoint (xgb_predictor w) = attached_endpoint w (endpoint_name w)"
    by (simp add: xgb_predictor_def)
  ultimately show ?thesis
    using view_complete[of deployed_name w] view_complete[of predictor_of w]
      view_complete[of deleted_name w] 1 2 3 last_complete[of w]
    by simp
qed

theorem teardown_deletes_created_endpoint_witness:
  "fst (run quiet_world) = Inr () \<and>
   last (snd (run quiet_world)) = Called (Delete_endpoint ''demo-xgboost-customer-churn-2020-05-07-09-03-01'') \<and>
   List.map_filter deleted_name (snd (run quiet_world)) = [''demo-xgboost-customer-churn-2020-05-07-09-03-01''] \<and>
   List.map_filter deployed_name (snd (run quiet_world)) = [''demo-xgboost-customer-churn-2020-05-07-09-03-01'']"
  using teardown_deletes_created_endpoint[of quiet_world] quiet_world_completes
  by (simp add: quiet_endpoint_name) (simp add: quiet_world_def)

text \<open>
  C10. Every bucket creation of a run is for the bucket \<^verbatim>\<open>sagemaker-<region>-<account>\<close>,
  with no location constraint when the region is \<^verbatim>\<open>us-east-1\<close> and with the region as
  location constraint otherwise; a run that completes creates the bucket exactly once.
\<close>

theorem bucket_creation_follows_region:
  "set (List.map_filter bucket_created (snd (run w)))
     \<subseteq> {(''sagemaker-'' @ region_name w @ ''-'' @ account w,
          if region_name w = ''us-east-1'' then None else Some (region_name w))} \<and>
   (fst (run w) = Inr () \<longrightarrow>
      List.map_filter bucket_created (snd (run w)) =
        [(''sagemaker-'' @ region_name w @ ''-'' @ account w,
          if region_name w = ''us-east-1'' then None else Some (region_name w))])"
proof -
  have sk: "List.map_filter bucket_created (skeleton (plan w)) = [(bucket_name w, location w)]"
    by (simp add: plan_views)
  have names: "bucket_name w = ''sagemaker-'' @ region_name w @ ''-'' @ account w"
    "location w = (if region_name w = ''us-east-1'' then None else Some (region_name w))"
    by (simp_all add: bucket_name_def location_def)
  obtain j where "List.map_filter bucket_created (snd (run w)) = take j [(bucket_name w, location w)]"
    using view_any[of bucket_created w] sk by auto
  then have "set (List.map_filter bucket_created (snd (run w))) \<subseteq> {(bucket_name w, location w)}"
    using set_take_subset[of j "[(bucket_name w, location w)]"] by simp
  moreover have "fst (run w) = Inr () \<longrightarrow> List.map_filter bucket_created (snd (run w)) = [(bucket_name w, location w)]"
    using view_complete[of bucket_created w] sk by simp
  ultimately show ?thesis unfolding names by blast
qed

theorem bucket_creation_follows_region_witness:
  "fst (run quiet_world) = Inr () \<and>
   List.map_filter bucket_created (snd (run quiet_world)) = [(''sagemaker-eu-west-1-123456789012'', Some ''eu-west-1'')] \<and>
   fst (run us_east_world) = Inr () \<and>
   List.map_filter bucket_created (snd (run us_east_world)) = [(''sagemaker-us-east-1-123456789012'', None)]"
  using bucket_creation_follows_region[of quiet_world] bucket_creation_follows_region[of us_east_world]
    quiet_world_completes us_east_world_completes
  by (simp add: quiet_world_def us_east_world_def)

end
